theory Spec2Isabelle
  imports Complex_Main "HOL-Library.Sublist" "HOL-Library.Product_Lexorder"
    "HOL-Library.Multiset"
begin

section \<open>Python values used by app.py\<close>

text \<open>
  A Python \<open>str\<close> is modelled as a \<open>string\<close> (a list of 8-bit characters), one
  character per code point, so the model covers text whose code points are below 256
  (Latin-1). The micro sign of the unit names is code point 0xB5.
\<close>

datatype py_error = ValueError | IndexError | TypeError

definition ord :: "char \<Rightarrow> int" where
  "ord c = of_char c"

text \<open>\<open>str.isspace\<close>, also the class \<open>\s\<close> of \<open>re\<close> and what \<open>str.strip()\<close> removes.\<close>

definition is_space :: "char \<Rightarrow> bool" where
  "is_space c = (let n = ord c in (9 \<le> n \<and> n \<le> 13) \<or> (28 \<le> n \<and> n \<le> 32) \<or> n = 133 \<or> n = 160)"

definition is_digit :: "char \<Rightarrow> bool" where
  "is_digit c = (let n = ord c in 48 \<le> n \<and> n \<le> 57)"

definition digit_val :: "char \<Rightarrow> int" where
  "digit_val c = ord c - 48"

definition py_strip :: "string \<Rightarrow> string" where
  "py_strip s = rev (dropWhile is_space (rev (dropWhile is_space s)))"

text \<open>
  \<open>s.split(sep)\<close> for a non-empty separator: the pieces between the non-overlapping
  occurrences of \<open>sep\<close>, found from the left. (Python raises on an empty separator; app.py
  only splits on \<open>'-'\<close> and \<open>' - '\<close>, and here an empty separator never matches.)
\<close>

function py_split_from :: "string \<Rightarrow> string \<Rightarrow> string \<Rightarrow> string list" where
  "py_split_from sep cur [] = [cur]"
| "py_split_from sep cur (c # cs) =
     (if sep \<noteq> [] \<and> take (length sep) (c # cs) = sep
      then cur # py_split_from sep [] (drop (length sep) (c # cs))
      else py_split_from sep (cur @ [c]) cs)"
  by pat_completeness auto
termination
  by (relation "measure (\<lambda>(sep, cur, s). length s)") auto

definition py_split :: "string \<Rightarrow> string \<Rightarrow> string list" where
  "py_split sep s = py_split_from sep [] s"

subsection \<open>Floats\<close>

text \<open>
  A Python float is an IEEE binary64 value. Only its order matters to app.py, so a finite
  float is represented by the rational it denotes (the two zeros are not distinguished).
\<close>

datatype pyfloat = NaN | NegInf | Fin rat | PosInf

text \<open>\<open>a < b\<close> on floats; every comparison with NaN is false.\<close>

fun flt :: "pyfloat \<Rightarrow> pyfloat \<Rightarrow> bool" where
  "flt NaN _ = False"
| "flt _ NaN = False"
| "flt _ NegInf = False"
| "flt NegInf _ = True"
| "flt PosInf _ = False"
| "flt (Fin a) PosInf = True"
| "flt (Fin a) (Fin b) = (a < b)"

text \<open>\<open>a > b\<close> on floats.\<close>

definition fgt :: "pyfloat \<Rightarrow> pyfloat \<Rightarrow> bool" where
  "fgt a b = flt b a"

text \<open>\<open>a <= b\<close> on floats.\<close>

fun fle :: "pyfloat \<Rightarrow> pyfloat \<Rightarrow> bool" where
  "fle NaN _ = False"
| "fle _ NaN = False"
| "fle NegInf _ = True"
| "fle _ PosInf = True"
| "fle _ NegInf = False"
| "fle PosInf _ = False"
| "fle (Fin a) (Fin b) = (a \<le> b)"

text \<open>\<open>n.bit_length()\<close>: the number of binary digits of a positive integer.\<close>

function bit_length :: "int \<Rightarrow> int" where
  "bit_length n = (if n \<le> 0 then 0 else 1 + bit_length (n div 2))"
  by pat_completeness auto
termination
  by (relation "measure nat") auto

declare bit_length.simps [simp del]

text \<open>
  Correct rounding (to nearest, ties to even) of the positive rational \<open>n / d\<close> to binary64:
  \<open>e\<close> is the binary exponent (not below that of the subnormals), the significand is
  rounded to a multiple of \<open>2 ^ (e - 52)\<close>, and a result of \<open>2 ^ 1024\<close> or more
  overflows (Python's \<open>float\<close> then returns infinity).
\<close>

definition pow2 :: "int \<Rightarrow> rat" where
  "pow2 k = (if 0 \<le> k then 2 ^ nat k else 1 / 2 ^ nat (- k))"

definition round_binary64 :: "int \<Rightarrow> int \<Rightarrow> rat option" where
  "round_binary64 n d =
     (let k = bit_length n - bit_length d;
          e0 = (if pow2 k \<le> of_int n / of_int d then k else k - 1);
          e = max e0 (- 1022);
          s = e - 52;
          num = (if s \<le> 0 then n * 2 ^ nat (- s) else n);
          den = (if s \<le> 0 then d else d * 2 ^ nat s);
          q = num div den;
          r = num mod den;
          m = (if 2 * r < den then q else if den < 2 * r then q + 1
               else if even q then q else q + 1);
          v = of_int m * pow2 s
      in if pow2 1024 \<le> v then None else Some v)"

text \<open>The float nearest to \<open>(-1)^neg * n / d\<close>, for \<open>n \<ge> 0\<close> and \<open>d > 0\<close>.\<close>

definition to_binary64 :: "bool \<Rightarrow> int \<Rightarrow> int \<Rightarrow> pyfloat" where
  "to_binary64 neg n d =
     (if n = 0 then Fin 0
      else case round_binary64 n d of
             None \<Rightarrow> (if neg then NegInf else PosInf)
           | Some v \<Rightarrow> Fin (if neg then - v else v))"

text \<open>
  \<open>float(s)\<close> on a string. Leading and trailing blanks are dropped (the ASCII blanks and,
  of Latin-1, 0x85 and 0xA0); an underscore is allowed only between two digits; then an
  optional sign and either \<open>inf\<close>, \<open>infinity\<close>, \<open>nan\<close> in any letter case, or a
  decimal numeral with an optional exponent. Anything else raises ValueError (None).
\<close>

definition float_blank :: "char \<Rightarrow> bool" where
  "float_blank c = (let n = ord c in (9 \<le> n \<and> n \<le> 13) \<or> n = 32 \<or> n = 133 \<or> n = 160)"

fun underscores_ok :: "char option \<Rightarrow> string \<Rightarrow> bool" where
  "underscores_ok prev [] = (prev \<noteq> Some CHR ''_'')"
| "underscores_ok prev (c # cs) =
     ((if c = CHR ''_'' then (case prev of Some p \<Rightarrow> is_digit p | None \<Rightarrow> False)
       else (prev = Some CHR ''_'' \<longrightarrow> is_digit c))
      \<and> underscores_ok (Some c) cs)"

definition lower :: "char \<Rightarrow> char" where
  "lower c = (let n = ord c in if 65 \<le> n \<and> n \<le> 90 then char_of (n + 32) else c)"

definition digits_val :: "string \<Rightarrow> int" where
  "digits_val ds = foldl (\<lambda>a c. 10 * a + digit_val c) 0 ds"

text \<open>The exponent part: empty, or \<open>e\<close>, an optional sign and at least one digit.\<close>

definition parse_exponent :: "string \<Rightarrow> int option" where
  "parse_exponent s =
     (case s of
        [] \<Rightarrow> Some 0
      | c # r \<Rightarrow>
          if lower c \<noteq> CHR ''e'' then None
          else (let neg = (case r of x # _ \<Rightarrow> x = CHR ''-'' | [] \<Rightarrow> False);
                    ds = (case r of x # r' \<Rightarrow> if x = CHR ''+'' \<or> x = CHR ''-'' then r' else r
                                  | [] \<Rightarrow> [])
                in if ds = [] \<or> \<not> list_all is_digit ds then None
                   else Some (if neg then - digits_val ds else digits_val ds)))"

definition parse_decimal :: "bool \<Rightarrow> string \<Rightarrow> pyfloat option" where
  "parse_decimal neg s =
     (let ip = takeWhile is_digit s;
          r1 = dropWhile is_digit s;
          has_point = (case r1 of c # _ \<Rightarrow> c = CHR ''.'' | [] \<Rightarrow> False);
          r2 = (if has_point then tl r1 else r1);
          fp = (if has_point then takeWhile is_digit r2 else []);
          r3 = (if has_point then dropWhile is_digit r2 else r2)
      in if ip = [] \<and> fp = [] then None
         else case parse_exponent r3 of
                None \<Rightarrow> None
              | Some ex \<Rightarrow>
                  (let mant = digits_val (ip @ fp);
                       e10 = ex - int (length fp)
                   in Some (if 0 \<le> e10 then to_binary64 neg (mant * 10 ^ nat e10) 1
                            else to_binary64 neg mant (10 ^ nat (- e10)))))"

definition py_float :: "string \<Rightarrow> pyfloat option" where
  "py_float s0 =
     (let s = rev (dropWhile float_blank (rev (dropWhile float_blank s0)))
      in if \<not> underscores_ok None s then None
         else (let t = filter (\<lambda>c. c \<noteq> CHR ''_'') s;
                   neg = (case t of c # _ \<Rightarrow> c = CHR ''-'' | [] \<Rightarrow> False);
                   u = (case t of c # r \<Rightarrow> if c = CHR ''+'' \<or> c = CHR ''-'' then r else t
                                | [] \<Rightarrow> []);
                   w = map lower u
               in if w = ''inf'' \<or> w = ''infinity'' then Some (if neg then NegInf else PosInf)
                  else if w = ''nan'' then Some NaN
                  else parse_decimal neg u))"

section \<open>Regular expressions\<close>

text \<open>
  The three patterns of \<open>extract_all_data_from_pdf\<close> are sequences of the items below, and
  \<open>re\<close> matches them by backtracking: a repetition is greedy (it first takes as many
  characters as it can, then gives them back one at a time), an optional group first tries
  its alternatives in their order.
\<close>

text \<open>The class \<open>\w\<close> on Latin-1: letters, digits, numeric characters and the underscore.\<close>

definition is_word :: "char \<Rightarrow> bool" where
  "is_word c =
     (let n = ord c
      in (48 \<le> n \<and> n \<le> 57) \<or> (65 \<le> n \<and> n \<le> 90) \<or> n = 95 \<or> (97 \<le> n \<and> n \<le> 122)
         \<or> n = 170 \<or> n = 178 \<or> n = 179 \<or> n = 181 \<or> n = 185 \<or> n = 186
         \<or> (188 \<le> n \<and> n \<le> 190) \<or> (192 \<le> n \<and> n \<le> 214) \<or> (216 \<le> n \<and> n \<le> 246)
         \<or> 248 \<le> n)"

text \<open>The class \<open>[A-Za-z]\<close>.\<close>

definition is_ascii_letter :: "char \<Rightarrow> bool" where
  "is_ascii_letter c = (let n = ord c in (65 \<le> n \<and> n \<le> 90) \<or> (97 \<le> n \<and> n \<le> 122))"

datatype item =
    Lit char
  | Rep "char \<Rightarrow> bool" nat "nat option"
  | OptAlt "string list"
  | Open nat
  | Close nat
  | Bound

text \<open>
  \<open>Lit c\<close> is the character \<open>c\<close>; \<open>Rep cls lo hi\<close> is a greedy repetition of one character
  of the class, at least \<open>lo\<close> and at most \<open>hi\<close> times (\<open>*\<close> is \<open>Rep cls 0 None\<close>,
  \<open>+\<close> is \<open>Rep cls 1 None\<close>, \<open>?\<close> is \<open>Rep cls 0 (Some 1)\<close>); \<open>OptAlt alts\<close> is an
  optional non-capturing group of literal alternatives, \<open>(?:a|b)?\<close>; \<open>Open k\<close> and
  \<open>Close k\<close> are the parentheses of group \<open>k\<close>; \<open>Bound\<close> is \<open>\b\<close>.

  The matcher walks the text: \<open>prev\<close> is the character before the position (\<open>None\<close> at the
  start of the text), \<open>s\<close> the text from the position on, \<open>ops\<close> the text at each open
  parenthesis and \<open>grp\<close> the text of each closed group. On success it returns the groups and
  the position after the match.
\<close>

type_synonym groups = "nat \<rightharpoonup> string"

definition word_before :: "char option \<Rightarrow> bool" where
  "word_before prev = (case prev of None \<Rightarrow> False | Some c \<Rightarrow> is_word c)"

definition word_after :: "string \<Rightarrow> bool" where
  "word_after s = (case s of [] \<Rightarrow> False | c # _ \<Rightarrow> is_word c)"

definition prev_after :: "nat \<Rightarrow> char option \<Rightarrow> string \<Rightarrow> char option" where
  "prev_after k prev s = (if k = 0 then prev else Some (s ! (k - 1)))"

function (sequential) re_match :: "item list \<Rightarrow> char option \<Rightarrow> string \<Rightarrow> groups \<Rightarrow> groups
                   \<Rightarrow> (groups \<times> char option \<times> string) option"
  and try_rep :: "item list \<Rightarrow> char option \<Rightarrow> string \<Rightarrow> groups \<Rightarrow> groups \<Rightarrow> nat \<Rightarrow> nat
                   \<Rightarrow> (groups \<times> char option \<times> string) option"
  and try_alts :: "item list \<Rightarrow> char option \<Rightarrow> string \<Rightarrow> groups \<Rightarrow> groups \<Rightarrow> string list
                   \<Rightarrow> (groups \<times> char option \<times> string) option"
where
  "re_match [] prev s ops grp = Some (grp, prev, s)"
| "re_match (Lit c # ps) prev s ops grp =
     (case s of
        [] \<Rightarrow> None
      | x # xs \<Rightarrow> if x = c then re_match ps (Some x) xs ops grp else None)"
| "re_match (Rep cls lo hi # ps) prev s ops grp =
     (let run = length (takeWhile cls s);
          n = (case hi of None \<Rightarrow> run | Some h \<Rightarrow> min h run)
      in if n < lo then None else try_rep ps prev s ops grp lo n)"
| "re_match (OptAlt alts # ps) prev s ops grp = try_alts ps prev s ops grp alts"
| "re_match (Open k # ps) prev s ops grp = re_match ps prev s (ops(k \<mapsto> s)) grp"
| "re_match (Close k # ps) prev s ops grp =
     (case ops k of
        None \<Rightarrow> None
      | Some s0 \<Rightarrow> re_match ps prev s ops (grp(k \<mapsto> take (length s0 - length s) s0)))"
| "re_match (Bound # ps) prev s ops grp =
     (if word_before prev \<noteq> word_after s then re_match ps prev s ops grp else None)"
| "try_rep ps prev s ops grp lo k =
     (case re_match ps (prev_after k prev s) (drop k s) ops grp of
        Some r \<Rightarrow> Some r
      | None \<Rightarrow> if lo < k then try_rep ps prev s ops grp lo (k - 1) else None)"
| "try_alts ps prev s ops grp [] = re_match ps prev s ops grp"
| "try_alts ps prev s ops grp (a # alts) =
     (case (if a \<noteq> [] \<and> take (length a) s = a
            then re_match ps (Some (last a)) (drop (length a) s) ops grp else None) of
        Some r \<Rightarrow> Some r
      | None \<Rightarrow> try_alts ps prev s ops grp alts)"
  by pat_completeness auto
termination
  by (relation "inv_image (less_than <*lex*> less_than)
        (\<lambda>x. case x of
               Inl (ps, prev, s, ops, grp) \<Rightarrow> (length ps, 0)
             | Inr (Inl (ps, prev, s, ops, grp, lo, k)) \<Rightarrow> (length ps, Suc k)
             | Inr (Inr (ps, prev, s, ops, grp, alts)) \<Rightarrow> (length ps, Suc (length alts)))")
     auto

declare try_rep.simps [simp del]

text \<open>
  \<open>re.search\<close>: the match at the leftmost position that has one (the end of the text is a
  position too).
\<close>

fun re_search_from :: "item list \<Rightarrow> char option \<Rightarrow> string \<Rightarrow> groups option" where
  "re_search_from ps prev [] = map_option fst (re_match ps prev [] Map.empty Map.empty)"
| "re_search_from ps prev (c # cs) =
     (case re_match ps prev (c # cs) Map.empty Map.empty of
        Some r \<Rightarrow> Some (fst r)
      | None \<Rightarrow> re_search_from ps (Some c) cs)"

definition re_search :: "item list \<Rightarrow> string \<Rightarrow> groups option" where
  "re_search ps text = re_search_from ps None text"

text \<open>
  \<open>re.findall\<close>: the matches from left to right, each search starting where the last match
  ended. (After an empty match the search moves on by one character; the pattern of
  \<open>extract_all_data_from_pdf\<close> has no empty match.)
\<close>

function re_findall_from :: "item list \<Rightarrow> char option \<Rightarrow> string \<Rightarrow> groups list" where
  "re_findall_from ps prev s =
     (case re_match ps prev s Map.empty Map.empty of
        Some (grp, prev', rest) \<Rightarrow>
          if length rest < length s then grp # re_findall_from ps prev' rest
          else (case s of [] \<Rightarrow> [grp] | c # cs \<Rightarrow> grp # re_findall_from ps (Some c) cs)
      | None \<Rightarrow> (case s of [] \<Rightarrow> [] | c # cs \<Rightarrow> re_findall_from ps (Some c) cs))"
  by pat_completeness auto
termination
  by (relation "measure (\<lambda>(ps, prev, s). length s)") auto

declare re_findall_from.simps [simp del]

definition re_findall :: "item list \<Rightarrow> string \<Rightarrow> groups list" where
  "re_findall ps text = re_findall_from ps None text"

text \<open>A group of a \<open>findall\<close> tuple: the empty string when the group took no part.\<close>

definition group_text :: "groups \<Rightarrow> nat \<Rightarrow> string" where
  "group_text grp k = (case grp k of None \<Rightarrow> [] | Some t \<Rightarrow> t)"

section \<open>Records of the pipeline\<close>

text \<open>
  A row is the dictionary that \<open>extract_all_data_from_pdf\<close> and \<open>handle_upload\<close> build, with
  the keys \<open>'Name'\<close>, \<open>'Date'\<close>, \<open>'Test Name'\<close>, \<open>'Value'\<close>, \<open>'Unit'\<close> and
  \<open>'Reference Range'\<close>; \<open>analyze_test_results\<close> adds the key \<open>'Category'\<close> (\<open>None\<close> in the
  field \<open>Category\<close> while the key is absent). \<open>'Name'\<close> and \<open>'Date'\<close> hold Python's
  \<open>None\<close> when the text has no match.
\<close>

record row =
  Name :: "string option"
  Date :: "string option"
  Test_Name :: string
  Value :: string
  Unit :: string
  Reference_Range :: string
  Category :: "string option"

definition micro :: char where
  "micro = CHR 0xB5"

definition VALID_UNITS :: "string list" where
  "VALID_UNITS =
     [''g/dL'', ''mg/dL'', ''mmol/L'', ''IU/L'', ''%'', ''fl'', ''pg'', ''pg/mL'', micro # ''L'',
      ''nmol/L'', micro # ''IU/mL'', ''mL/min/1.73m2'', ''U/L'', ''thou/mm3'']"

definition VALID_TEST_NAMES :: "string list" where
  "VALID_TEST_NAMES =
     [''Creatinine'', ''GFR Estimated'', ''Glucose Fasting'', ''Cyanocobalamin'',
      ''Hemoglobin'', ''RBC'', ''WBC'', ''Platelets'', ''Cholesterol'', ''25 Hydroxy'',
      ''T3, Total'', ''T4, Total'', ''TSH'', ''Phosphorus'', ''Sodium'', ''Potassium'',
      ''Chloride'', ''GFR Category G2'', ''Urea'', ''Urea Nitrogen Blood'', ''Total'',
      ''Triglycerides'', ''HDL Cholesterol'', ''Calculated'', ''HDL Cholesterol'',
      ''Uric Acid'', ''GGTP'', ''00 RBC Count'', ''HbA1c'', ''MCV'', ''MCH'', ''MCHC'',
      ''Segmented Neutrophils'', ''Lymphocytes'', ''Monocytes'', ''Eosinophils'', ''Basophils'',
      ''Absolute Leucocyte Count'', ''Neutrophils'', ''Lymphocytes'', ''Monocytes'',
      ''Eosinophils'', ''Basophils'', ''Platelet Count'', ''Bilirubin Direct'',
      ''Bilirubin Total'', ''Bilirubin Indirect'', ''Total Protein'', ''Albumin'', ''G Ratio'']"

section \<open>clean_data\<close>

text \<open>The loop of \<open>clean_data\<close>: \<open>cleaned_data\<close> is the accumulator, appended to.\<close>

fun clean_loop :: "row list \<Rightarrow> row list \<Rightarrow> row list" where
  "clean_loop cleaned_data [] = cleaned_data"
| "clean_loop cleaned_data (entry # es) =
     (if Test_Name entry \<in> set VALID_TEST_NAMES \<and> Unit entry \<in> set VALID_UNITS
      then clean_loop (cleaned_data @ [entry]) es
      else clean_loop cleaned_data es)"

definition clean_data :: "row list \<Rightarrow> row list" where
  "clean_data data = clean_loop [] data"

section \<open>analyze_test_results\<close>

text \<open>
  The body of the loop of \<open>analyze_test_results\<close> on one item: the item with its
  \<open>'Category'\<close> set, or the exception that \<open>float\<close> or the index \<open>[0]\<close> raises.
\<close>

definition analyze_item :: "row \<Rightarrow> py_error + row" where
  "analyze_item item =
     (case py_float (Value item) of
        None \<Rightarrow> Inl ValueError
      | Some v \<Rightarrow>
          if length (py_split ''-'' (Reference_Range item)) = 2 then
            (case py_float (py_strip (py_split ''-'' (Reference_Range item) ! 0)) of
               None \<Rightarrow> Inl ValueError
             | Some low \<Rightarrow>
                 (case py_float (py_strip (py_split ''-'' (Reference_Range item) ! 1)) of
                    None \<Rightarrow> Inl ValueError
                  | Some high \<Rightarrow>
                      Inr (item\<lparr>Category :=
                        Some (if flt v low then ''Low''
                              else if fgt v high then ''High''
                              else ''Normal'')\<rparr>)))
          else
            (case Reference_Range item of
               [] \<Rightarrow> Inl IndexError
             | sign # rest \<Rightarrow>
                 if sign = CHR ''<'' then
                   (case py_float rest of
                      None \<Rightarrow> Inl ValueError
                    | Some t \<Rightarrow>
                        Inr (item\<lparr>Category := Some (if fgt v t then ''High'' else ''Normal'')\<rparr>))
                 else
                   (case py_float rest of
                      None \<Rightarrow> Inl ValueError
                    | Some t \<Rightarrow>
                        Inr (item\<lparr>Category := Some (if flt v t then ''Low'' else ''Normal'')\<rparr>))))"

text \<open>
  \<open>data\<close> is a list of references to dictionaries, and the loop assigns
  \<open>item['Category']\<close> in the dictionary itself. The store maps each address to the
  dictionary there; the loop returns the store it leaves behind, with the exception that
  stopped it, if any.
\<close>

type_synonym addr = nat
type_synonym store = "addr \<Rightarrow> row"

fun analyze_loop :: "store \<Rightarrow> addr list \<Rightarrow> store \<times> py_error option" where
  "analyze_loop st [] = (st, None)"
| "analyze_loop st (a # as) =
     (case analyze_item (st a) of
        Inl e \<Rightarrow> (st, Some e)
      | Inr item \<Rightarrow> analyze_loop (st(a := item)) as)"

definition analyze_columns :: "string list" where
  "analyze_columns =
     [''Name'', ''Date'', ''Test Name'', ''Value'', ''Unit'', ''Reference Range'', ''Category'']"

text \<open>
  The callback returns the list it was given (the same references) and the columns; an
  exception leaves the callback without a result.
\<close>

definition analyze_test_results :: "store \<Rightarrow> addr list \<Rightarrow> store \<times> (py_error + addr list \<times> string list)" where
  "analyze_test_results st data =
     (case analyze_loop st data of
        (st', Some e) \<Rightarrow> (st', Inl e)
      | (st', None) \<Rightarrow> (st', Inr (data, analyze_columns)))"

section \<open>extract_all_data_from_pdf\<close>

definition newline :: char where
  "newline = CHR 0x0A"

text \<open>\<open>pattern = r'([\w\s]+):?\s+([\d.,]+)\s*([^\s]*)\s*(.*)'\<close>\<close>

definition pattern :: "item list" where
  "pattern =
     [Open 1, Rep (\<lambda>c. is_word c \<or> is_space c) 1 None, Close 1,
      Rep (\<lambda>c. c = CHR '':'') 0 (Some 1),
      Rep is_space 1 None,
      Open 2, Rep (\<lambda>c. is_digit c \<or> c = CHR ''.'' \<or> c = CHR '','') 1 None, Close 2,
      Rep is_space 0 None,
      Open 3, Rep (\<lambda>c. \<not> is_space c) 0 None, Close 3,
      Rep is_space 0 None,
      Open 4, Rep (\<lambda>c. c \<noteq> newline) 0 None, Close 4]"

text \<open>\<open>name_pattern = r'Name\s*:\s*(?:Mr\.|Ms\.)?\s*([A-Za-z]+\s+[A-Za-z]+)'\<close>\<close>

definition name_pattern :: "item list" where
  "name_pattern =
     [Lit CHR ''N'', Lit CHR ''a'', Lit CHR ''m'', Lit CHR ''e'',
      Rep is_space 0 None, Lit CHR '':'', Rep is_space 0 None,
      OptAlt [''Mr.'', ''Ms.''],
      Rep is_space 0 None,
      Open 1, Rep is_ascii_letter 1 None, Rep is_space 1 None, Rep is_ascii_letter 1 None,
      Close 1]"

text \<open>
  \<open>date_pattern = r'\b\d{1,2}\/\d{1,2}\/\d{4}\b'\<close>; group 0 is the whole match, which
  \<open>date_match.group()\<close> returns.
\<close>

definition date_pattern :: "item list" where
  "date_pattern =
     [Open 0, Bound, Rep is_digit 1 (Some 2), Lit CHR ''/'', Rep is_digit 1 (Some 2),
      Lit CHR ''/'', Rep is_digit 4 (Some 4), Bound, Close 0]"

text \<open>
  The argument is the text that \<open>page.extract_text()\<close> gives for each page of the document,
  in order; the function joins them without a separator, as the loop over \<open>pdf.pages\<close> does.
\<close>

definition extract_all_data_from_pdf :: "string list \<Rightarrow> row list" where
  "extract_all_data_from_pdf pages =
     (let text = concat pages;
          matches = re_findall pattern text;
          name_match = re_search name_pattern text;
          date_match = re_search date_pattern text;
          patient_name = (case name_match of None \<Rightarrow> None | Some g \<Rightarrow> g 1);
          collection_date = (case date_match of None \<Rightarrow> None | Some g \<Rightarrow> g 0);
          extracted_data =
            map (\<lambda>match.
                  \<lparr>Name = patient_name,
                   Date = collection_date,
                   Test_Name = py_strip (group_text match 1),
                   Value = py_strip (group_text match 2),
                   Unit = py_strip (group_text match 3),
                   Reference_Range = py_strip (group_text match 4),
                   Category = None\<rparr>) matches
      in clean_data extracted_data)"

section \<open>handle_upload\<close>

text \<open>
  The callback gets the uploaded documents (\<open>None\<close> before any upload); decoding the
  upload and reading the pages of the PDF are outside the model, so a document is the list
  of its pages' texts. Of the four outputs the model keeps the rows of the table and the
  options of the patient dropdown; an option has the name as its label and as its value.
  \<open>unique_names\<close> is a Python set, so the options are modelled as a set: their order is
  not determined by the code.
\<close>

record upload_result =
  table_data :: "row list"
  dropdown_name_options :: "string set"

text \<open>The truth value of \<open>name\<close> in \<open>if name\<close>: false for \<open>None\<close> and for the empty string.\<close>

definition truthy :: "string option \<Rightarrow> bool" where
  "truthy name = (case name of None \<Rightarrow> False | Some n \<Rightarrow> n \<noteq> [])"

definition handle_upload :: "string list list option \<Rightarrow> upload_result" where
  "handle_upload contents =
     (case contents of
        None \<Rightarrow> \<lparr>table_data = [], dropdown_name_options = {}\<rparr>
      | Some docs \<Rightarrow>
          (let files_data = concat (map extract_all_data_from_pdf docs)
           in if files_data = [] then \<lparr>table_data = [], dropdown_name_options = {}\<rparr>
              else
                (let table = map (\<lambda>entry.
                                   \<lparr>Name = Name entry, Date = Date entry,
                                    Test_Name = Test_Name entry, Value = Value entry,
                                    Unit = Unit entry, Reference_Range = Reference_Range entry,
                                    Category = None\<rparr>) files_data;
                     unique_names = set (map Name files_data)
                 in \<lparr>table_data = table,
                     dropdown_name_options = the ` {name \<in> unique_names. truthy name}\<rparr>)))"

section \<open>update_charts\<close>

subsection \<open>datetime.strptime(date, '%d/%m/%Y')\<close>

record datetime =
  year :: int
  month :: int
  day :: int

text \<open>Datetimes compare by year, then month, then day (the time of day is always 0:00).\<close>

definition dt_key :: "datetime \<Rightarrow> int \<times> int \<times> int" where
  "dt_key d = (year d, month d, day d)"

definition is_leap :: "int \<Rightarrow> bool" where
  "is_leap y = (y mod 4 = 0 \<and> (y mod 100 \<noteq> 0 \<or> y mod 400 = 0))"

definition days_in_month :: "int \<Rightarrow> int \<Rightarrow> int" where
  "days_in_month y m =
     (if m = 2 then (if is_leap y then 29 else 28)
      else if m = 4 \<or> m = 6 \<or> m = 9 \<or> m = 11 then 30 else 31)"

text \<open>
  The directive \<open>%d\<close> is the regular expression \<open>3[0-1]|[1-2]\d|0[1-9]|[1-9]| [1-9]\<close>,
  \<open>%m\<close> is \<open>1[0-2]|0[1-9]|[1-9]\<close> and \<open>%Y\<close> is \<open>\d\d\d\d\<close>; the slashes of the format
  stand for themselves, so the day is the text before the first slash and the month the
  text before the second.
\<close>

definition day_field :: "string \<Rightarrow> bool" where
  "day_field t =
     (case t of
        [a] \<Rightarrow> is_digit a \<and> a \<noteq> CHR ''0''
      | [a, b] \<Rightarrow>
          (a = CHR ''3'' \<and> (b = CHR ''0'' \<or> b = CHR ''1''))
          \<or> ((a = CHR ''1'' \<or> a = CHR ''2'') \<and> is_digit b)
          \<or> (a = CHR ''0'' \<and> is_digit b \<and> b \<noteq> CHR ''0'')
          \<or> (a = CHR '' '' \<and> is_digit b \<and> b \<noteq> CHR ''0'')
      | _ \<Rightarrow> False)"

definition month_field :: "string \<Rightarrow> bool" where
  "month_field t =
     (case t of
        [a] \<Rightarrow> is_digit a \<and> a \<noteq> CHR ''0''
      | [a, b] \<Rightarrow>
          (a = CHR ''1'' \<and> (b = CHR ''0'' \<or> b = CHR ''1'' \<or> b = CHR ''2''))
          \<or> (a = CHR ''0'' \<and> is_digit b \<and> b \<noteq> CHR ''0'')
      | _ \<Rightarrow> False)"

definition year_field :: "string \<Rightarrow> bool" where
  "year_field t = (length t = 4 \<and> list_all is_digit t)"

text \<open>
  \<open>strptime\<close> raises TypeError on \<open>None\<close>, and ValueError when the text does not match
  the format or names no date of the calendar (years start at 1).
\<close>

definition strptime :: "string option \<Rightarrow> py_error + datetime" where
  "strptime date =
     (case date of
        None \<Rightarrow> Inl TypeError
      | Some s \<Rightarrow>
          (case py_split ''/'' s of
             [d, m, y] \<Rightarrow>
               if day_field d \<and> month_field m \<and> year_field y then
                 (let dt = \<lparr>year = digits_val y, month = digits_val m,
                            day = digits_val (filter (\<lambda>c. c \<noteq> CHR '' '') d)\<rparr>
                  in if year dt < 1 \<or> days_in_month (year dt) (month dt) < day dt
                     then Inl ValueError else Inr dt)
               else Inl ValueError
           | _ \<Rightarrow> Inl ValueError))"

subsection \<open>The nested dictionary test_data\<close>

text \<open>
  \<open>test_data\<close> maps a patient to a dictionary from test names to the three lists
  \<open>'values'\<close>, \<open>'dates'\<close> and \<open>'range'\<close>. A dictionary keeps its keys in the order of their
  insertion, which the loop over \<open>test_data[first_patient].keys()\<close> follows, so it is an
  association list with each key once.
\<close>

record series =
  s_values :: "pyfloat list"
  s_dates :: "string option list"
  s_range :: "string list"

definition empty_series :: series where
  "empty_series = \<lparr>s_values = [], s_dates = [], s_range = []\<rparr>"

type_synonym test_dict = "(string \<times> series) list"
type_synonym test_data = "(string option \<times> test_dict) list"

text \<open>
  \<open>d[k]\<close> on a \<open>defaultdict\<close> followed by a change \<open>f\<close> of the value: a missing key is
  inserted last, with the default value.
\<close>

fun dd_update :: "'k \<Rightarrow> 'v \<Rightarrow> ('v \<Rightarrow> 'v) \<Rightarrow> ('k \<times> 'v) list \<Rightarrow> ('k \<times> 'v) list" where
  "dd_update k dflt f [] = [(k, f dflt)]"
| "dd_update k dflt f ((k', v) # d) =
     (if k' = k then (k', f v) # d else (k', v) # dd_update k dflt f d)"

text \<open>Reading \<open>d[k]\<close> on a \<open>defaultdict\<close>: the default when the key is missing.\<close>

definition dd_get :: "'k \<Rightarrow> 'v \<Rightarrow> ('k \<times> 'v) list \<Rightarrow> 'v" where
  "dd_get k dflt d = (case map_of d k of None \<Rightarrow> dflt | Some v \<Rightarrow> v)"

definition add_observation ::
  "string option \<Rightarrow> string \<Rightarrow> pyfloat \<Rightarrow> string option \<Rightarrow> string \<Rightarrow> test_data \<Rightarrow> test_data" where
  "add_observation patient test_name test_value date rng td =
     dd_update patient []
       (dd_update test_name empty_series
          (\<lambda>s. s\<lparr>s_values := s_values s @ [test_value],
                  s_dates := s_dates s @ [date],
                  s_range := s_range s @ [rng]\<rparr>)) td"

text \<open>The first loop of \<open>update_charts\<close>, over the rows of the table.\<close>

fun collect_rows :: "string option list \<Rightarrow> test_data \<Rightarrow> row list \<Rightarrow> py_error + test_data" where
  "collect_rows selected_names td [] = Inr td"
| "collect_rows selected_names td (r # rows) =
     (if Name r \<in> set selected_names then
        (if Value r \<noteq> ''N/A'' then
           (case py_float (Value r) of
              None \<Rightarrow> Inl ValueError
            | Some test_value \<Rightarrow>
                collect_rows selected_names
                  (add_observation (Name r) (Test_Name r) test_value (Date r)
                     (Reference_Range r) td) rows)
         else collect_rows selected_names td rows)
      else collect_rows selected_names td rows)"

subsection \<open>The charts\<close>

text \<open>
  A chart is the figure of one test: its title and one trace per patient, with the points
  of \<open>fig.add_scatter\<close> (\<open>x\<close> the dates, \<open>y\<close> the values) and the heights \<open>low\<close> and \<open>high\<close>
  of the two reference lines of \<open>fig.add_shape\<close>. \<open>low\<close> is always a string; \<open>high\<close> is a
  string in the first branch and a float in the second.
\<close>

datatype yval = YStr string | YNum pyfloat

record trace =
  t_name :: "string option"
  t_x :: "datetime list"
  t_y :: "pyfloat list"
  t_low :: string
  t_high :: yval

record chart =
  title :: string
  traces :: "trace list"

text \<open>The list comprehension over the dates: the first date that does not parse raises.\<close>

fun parse_dates :: "string option list \<Rightarrow> py_error + datetime list" where
  "parse_dates [] = Inr []"
| "parse_dates (d # ds) =
     (case strptime d of
        Inl e \<Rightarrow> Inl e
      | Inr dt \<Rightarrow> (case parse_dates ds of Inl e \<Rightarrow> Inl e | Inr dts \<Rightarrow> Inr (dt # dts)))"

text \<open>
  \<open>sorted(xs, key=..., reverse=True)\<close>: descending by the key, and stable (elements with
  equal keys keep their order).
\<close>

definition sorted_reverse :: "('a \<Rightarrow> 'k::linorder) \<Rightarrow> 'a list \<Rightarrow> 'a list" where
  "sorted_reverse key xs = rev (sort_key key (rev xs))"

text \<open>
  The heights of the two reference lines, from \<open>range[0]\<close>, the first reference range of
  the series: the two sides of \<open>' - '\<close> as they are written, or else the whole string as
  \<open>low\<close> and the number after its first character as \<open>high\<close>.
\<close>

definition reference_lines :: "string \<Rightarrow> py_error + string \<times> yval" where
  "reference_lines range0 =
     (let ref = py_split '' - '' range0
      in if length ref = 2 then Inr (ref ! 0, YStr (ref ! 1))
         else (case py_float (drop 1 (ref ! 0)) of
                 None \<Rightarrow> Inl ValueError
               | Some h \<Rightarrow> Inr (ref ! 0, YNum h)))"

text \<open>The body of the inner loop, for a patient that has the test.\<close>

definition make_trace :: "string option \<Rightarrow> series \<Rightarrow> py_error + trace" where
  "make_trace patient_name ser =
     (case parse_dates (s_dates ser) of
        Inl e \<Rightarrow> Inl e
      | Inr dates \<Rightarrow>
          (let sorted_data = sorted_reverse (\<lambda>x. dt_key (fst x)) (zip dates (s_values ser))
           in if sorted_data = [] then Inl ValueError
              else
                (case s_range ser of
                   [] \<Rightarrow> Inl IndexError
                 | range0 # _ \<Rightarrow>
                     (case reference_lines range0 of
                        Inl e \<Rightarrow> Inl e
                      | Inr (low, high) \<Rightarrow>
                          Inr \<lparr>t_name = patient_name, t_x = map fst sorted_data,
                               t_y = map snd sorted_data, t_low = low, t_high = high\<rparr>))))"

text \<open>The inner loop, over the selected patients, for one test name.\<close>

fun chart_traces :: "test_data \<Rightarrow> string \<Rightarrow> string option list \<Rightarrow> py_error + trace list" where
  "chart_traces td test_name [] = Inr []"
| "chart_traces td test_name (patient_name # ps) =
     (case map_of (dd_get patient_name [] td) test_name of
        None \<Rightarrow> chart_traces td test_name ps
      | Some ser \<Rightarrow>
          (case make_trace patient_name ser of
             Inl e \<Rightarrow> Inl e
           | Inr t \<Rightarrow>
               (case chart_traces td test_name ps of
                  Inl e \<Rightarrow> Inl e
                | Inr ts \<Rightarrow> Inr (t # ts))))"

text \<open>The outer loop, over the test names of the first selected patient.\<close>

fun make_charts :: "test_data \<Rightarrow> string option list \<Rightarrow> string list \<Rightarrow> py_error + chart list" where
  "make_charts td selected_names [] = Inr []"
| "make_charts td selected_names (test_name # tests) =
     (case chart_traces td test_name selected_names of
        Inl e \<Rightarrow> Inl e
      | Inr ts \<Rightarrow>
          (case make_charts td selected_names tests of
             Inl e \<Rightarrow> Inl e
           | Inr cs \<Rightarrow> Inr (\<lparr>title = test_name, traces = ts\<rparr> # cs)))"

text \<open>
  \<open>selected_names\<close> is the value of the dropdown (\<open>None\<close> and the empty list are both
  falsy and modelled as the empty list), \<open>table_data\<close> the rows of the table.
\<close>

definition update_charts :: "string option list \<Rightarrow> row list \<Rightarrow> py_error + chart list" where
  "update_charts selected_names table =
     (if selected_names = [] \<or> table = [] then Inr []
      else
        (case collect_rows selected_names [] table of
           Inl e \<Rightarrow> Inl e
         | Inr td \<Rightarrow>
             (let first_patient = hd selected_names
              in make_charts td selected_names (map fst (dd_get first_patient [] td)))))"

section \<open>The classification policy of the specification\<close>

text \<open>
  The definitions of this section follow the words of the specification, not the code: the
  reference range as a tagged variant, the parsing policy and the classification policy.
  The theorems compare them with \<open>analyze_test_results\<close>.
\<close>

datatype category = Low | Normal | High

fun category_name :: "category \<Rightarrow> string" where
  "category_name Low = ''Low''"
| "category_name Normal = ''Normal''"
| "category_name High = ''High''"

datatype bound_op = LessThan | GreaterThan

datatype reference_range = Bounded pyfloat pyfloat | OneSided bound_op pyfloat

text \<open>
  Classification policy: for \<open>Bounded{low, high}\<close>, value < low gives Low, value > high
  gives High, else Normal; for \<open>OneSided{LessThan, threshold}\<close>, value > threshold gives
  High, else Normal; for \<open>OneSided{GreaterThan, threshold}\<close>, value < threshold gives Low,
  else Normal.
\<close>

fun spec_category :: "pyfloat \<Rightarrow> reference_range \<Rightarrow> category" where
  "spec_category v (Bounded low high) =
     (if flt v low then Low else if fgt v high then High else Normal)"
| "spec_category v (OneSided LessThan threshold) = (if fgt v threshold then High else Normal)"
| "spec_category v (OneSided GreaterThan threshold) = (if flt v threshold then Low else Normal)"

text \<open>
  Parsing policy, step 2: the first character \<open><\<close> gives \<open>OneSided{LessThan}\<close>, any other
  gives \<open>OneSided{GreaterThan}\<close>, the threshold being the rest of the string as a number;
  an empty string or a rest that is no number is a failure.
\<close>

definition spec_one_sided :: "string \<Rightarrow> reference_range option" where
  "spec_one_sided rr =
     (case rr of
        [] \<Rightarrow> None
      | sign # rest \<Rightarrow>
          (case py_float rest of
             None \<Rightarrow> None
           | Some threshold \<Rightarrow>
               Some (OneSided (if sign = CHR ''<'' then LessThan else GreaterThan) threshold)))"

text \<open>
  Parsing policy, step 1: the split on \<open>-\<close> yields exactly two non-empty trimmed numeric
  parts.
\<close>

definition spec_two_numeric_parts :: "string \<Rightarrow> (pyfloat \<times> pyfloat) option" where
  "spec_two_numeric_parts rr =
     (case map py_strip (py_split ''-'' rr) of
        [a, b] \<Rightarrow>
          (if a \<noteq> [] \<and> b \<noteq> [] then
             (case (py_float a, py_float b) of
                (Some low, Some high) \<Rightarrow> Some (low, high)
              | _ \<Rightarrow> None)
           else None)
      | _ \<Rightarrow> None)"

definition spec_parse_range :: "string \<Rightarrow> reference_range option" where
  "spec_parse_range rr =
     (case spec_two_numeric_parts rr of
        Some (low, high) \<Rightarrow> Some (Bounded low high)
      | None \<Rightarrow> spec_one_sided rr)"

section \<open>Example records\<close>

definition obs :: "string \<Rightarrow> string \<Rightarrow> string \<Rightarrow> string \<Rightarrow> row" where
  "obs t v u rr = \<lparr>Name = Some ''John Smith'', Date = Some ''12/03/2023'', Test_Name = t,
                   Value = v, Unit = u, Reference_Range = rr, Category = None\<rparr>"

text \<open>
  The rows of a table as the callback receives them: each row is a dictionary of its own,
  row \<open>i\<close> at address \<open>i\<close>. The addresses beyond the table hold a blank row.
\<close>

definition blank_row :: row where
  "blank_row = \<lparr>Name = None, Date = None, Test_Name = [], Value = [], Unit = [],
                 Reference_Range = [], Category = None\<rparr>"

definition store_of :: "row list \<Rightarrow> store" where
  "store_of rows a = (if a < length rows then rows ! a else blank_row)"

section \<open>The observations of a series\<close>

text \<open>
  The definitions of this section are used to state the theorems about \<open>update_charts\<close>.
  The observations of the pair of a patient and a test name are the rows of the table with
  that name and that test name which the first loop takes: the name is among the selected
  names and the value is not \<open>'N/A'\<close>. They are in the order of the table.
\<close>

definition pair_rows :: "string option list \<Rightarrow> row list \<Rightarrow> string option \<Rightarrow> string \<Rightarrow> row list" where
  "pair_rows selected_names table patient test_name =
     filter (\<lambda>r. Name r \<in> set selected_names \<and> Value r \<noteq> ''N/A''
                 \<and> Name r = patient \<and> Test_Name r = test_name) table"

text \<open>The point of a row: its date as \<open>strptime\<close> reads it and its value as \<open>float\<close> does.\<close>

definition point_of :: "row \<Rightarrow> (datetime \<times> pyfloat) option" where
  "point_of r =
     (case strptime (Date r) of
        Inl e \<Rightarrow> None
      | Inr d \<Rightarrow> (case py_float (Value r) of None \<Rightarrow> None | Some v \<Rightarrow> Some (d, v)))"

text \<open>\<open>test_data[patient][test_name]\<close>, when the patient has the test name as a key.\<close>

definition series_at :: "test_data \<Rightarrow> string option \<Rightarrow> string \<Rightarrow> series option" where
  "series_at td patient test_name = map_of (dd_get patient [] td) test_name"

text \<open>A series that holds, after those of \<open>base\<close>, the observations \<open>rs\<close> in their order.\<close>

definition extends :: "series \<Rightarrow> row list \<Rightarrow> series \<Rightarrow> bool" where
  "extends base rs ser \<longleftrightarrow>
     map Some (s_values ser) = map Some (s_values base) @ map (\<lambda>r. py_float (Value r)) rs
     \<and> s_dates ser = s_dates base @ map Date rs
     \<and> s_range ser = s_range base @ map Reference_Range rs"

section \<open>The callbacks in sequence\<close>

text \<open>
  The framework chains the callbacks: the rows that \<open>handle_upload\<close> returns for the table
  are the \<open>data\<close> that \<open>analyze_test_results\<close> receives, each row a dictionary of its own.
  The result is the list of records that the analysis returns, read from the store it
  leaves, or the exception.
\<close>

definition upload_and_analyze :: "string list list \<Rightarrow> py_error + row list" where
  "upload_and_analyze docs =
     (let table = table_data (handle_upload (Some docs));
          data = [0..<length table]
      in case analyze_test_results (store_of table) data of
           (st', Inl e) \<Rightarrow> Inl e
         | (st', Inr (out, cols)) \<Rightarrow> Inr (map st' out))"

section \<open>Example documents\<close>

text \<open>The three lines of Scenario A, the name first and the observation last.\<close>

definition doc_name_first :: string where
  "doc_name_first =
     ''Name: Mr. John Smith'' @ newline # ''12/03/2023'' @ newline #
     ''Hemoglobin 13.5 g/dL 13.0 - 17.0''"

text \<open>The same three lines, the observation first.\<close>

definition doc_observation_first :: string where
  "doc_observation_first =
     ''Hemoglobin 13.5 g/dL 13.0 - 17.0'' @ newline # ''Name: Mr. John Smith'' @ newline #
     ''12/03/2023''"

text \<open>A document with an observation and a date, but no name.\<close>

definition doc_no_name :: string where
  "doc_no_name = ''TSH 6.1 mg/dL <4.5'' @ newline # ''12/03/2023''"

section \<open>Example tables\<close>

definition sample :: "string \<Rightarrow> string \<Rightarrow> string \<Rightarrow> string \<Rightarrow> string \<Rightarrow> row" where
  "sample n d t v rr = \<lparr>Name = Some n, Date = Some d, Test_Name = t, Value = v,
                        Unit = ''g/dL'', Reference_Range = rr, Category = None\<rparr>"

text \<open>
  Two observations of one patient and one test, the later one (1 February 2023) first in
  the table, the earlier one (2 January 2023) second, with different reference ranges.
\<close>

definition later_first :: "row list" where
  "later_first =
     [sample ''John Smith'' ''01/02/2023'' ''Hemoglobin'' ''13.5'' ''12.0 - 16.0'',
      sample ''John Smith'' ''02/01/2023'' ''Hemoglobin'' ''13.0'' ''13.0 - 17.0'']"

text \<open>The same two observations, the earlier one first in the table.\<close>

definition earlier_first :: "row list" where
  "earlier_first =
     [sample ''John Smith'' ''02/01/2023'' ''Hemoglobin'' ''13.0'' ''13.0 - 17.0'',
      sample ''John Smith'' ''01/02/2023'' ''Hemoglobin'' ''13.5'' ''12.0 - 16.0'']"

text \<open>Two patients with one observation each, of different tests.\<close>

definition two_patients :: "row list" where
  "two_patients =
     [sample ''John Smith'' ''12/03/2023'' ''Hemoglobin'' ''13.5'' ''13.0 - 17.0'',
      sample ''Jane Doe'' ''12/03/2023'' ''TSH'' ''6.1'' ''<4.5'']"

section \<open>The validator\<close>

lemma clean_loop_filter:
  "clean_loop acc data =
     acc @ filter (\<lambda>entry. Test_Name entry \<in> set VALID_TEST_NAMES \<and> Unit entry \<in> set VALID_UNITS) data"
  by (induction data arbitrary: acc) simp_all

text \<open>
  C2. For every input sequence, \<open>clean_data\<close> returns exactly the subsequence (same order,
  entries unchanged) of the entries whose test name is in \<open>VALID_TEST_NAMES\<close> and whose
  unit is in \<open>VALID_UNITS\<close>, membership being equality of strings; so every returned entry
  satisfies both memberships.
\<close>

theorem clean_data_subsequence:
  "clean_data data =
     filter (\<lambda>entry. Test_Name entry \<in> set VALID_TEST_NAMES \<and> Unit entry \<in> set VALID_UNITS) data
   \<and> subseq (clean_data data) data
   \<and> (\<forall>entry \<in> set (clean_data data).
         Test_Name entry \<in> set VALID_TEST_NAMES \<and> Unit entry \<in> set VALID_UNITS)"
  by (simp add: clean_data_def clean_loop_filter)

text \<open>
  On five entries: a lower-case test name, an upper-case unit and a test name with a
  trailing blank are dropped; the two valid entries are kept in their order.
\<close>

theorem clean_data_subsequence_witness:
  "clean_data [obs ''Hemoglobin'' ''1'' ''g/dL'' ''0 - 2'', obs ''hemoglobin'' ''1'' ''g/dL'' ''0 - 2'',
               obs ''Hemoglobin'' ''1'' ''G/DL'' ''0 - 2'',
               obs ''TSH'' ''1'' (micro # ''IU/mL'') ''0 - 2'',
               obs ''Hemoglobin '' ''1'' ''g/dL'' ''0 - 2'']
     = [obs ''Hemoglobin'' ''1'' ''g/dL'' ''0 - 2'', obs ''TSH'' ''1'' (micro # ''IU/mL'') ''0 - 2'']"
  using clean_data_subsequence
    [of "[obs ''Hemoglobin'' ''1'' ''g/dL'' ''0 - 2'', obs ''hemoglobin'' ''1'' ''g/dL'' ''0 - 2'',
          obs ''Hemoglobin'' ''1'' ''G/DL'' ''0 - 2'',
          obs ''TSH'' ''1'' (micro # ''IU/mL'') ''0 - 2'',
          obs ''Hemoglobin '' ''1'' ''g/dL'' ''0 - 2'']"]
  by (simp add: obs_def VALID_TEST_NAMES_def VALID_UNITS_def micro_def)

section \<open>The classifier\<close>

lemmas float_defs = py_float_def parse_decimal_def parse_exponent_def to_binary64_def
  round_binary64_def pow2_def digits_val_def digit_val_def lower_def float_blank_def
  is_digit_def ord_def Let_def bit_length.simps

lemma py_float_empty: "py_float [] = None"
  by (simp add: float_defs)

lemma length_two: "length xs = 2 \<Longrightarrow> \<exists>a b. xs = [a, b]"
  by (cases xs; cases "tl xs") auto

lemma two_parts_length:
  "length (py_split ''-'' rr) \<noteq> 2 \<Longrightarrow> spec_two_numeric_parts rr = None"
  by (auto simp: spec_two_numeric_parts_def split: list.splits)

lemma two_parts_bounded:
  assumes "py_split ''-'' rr = [a, b]"
    and "py_float (py_strip a) = Some low" and "py_float (py_strip b) = Some high"
  shows "spec_two_numeric_parts rr = Some (low, high)"
proof -
  have "py_strip a \<noteq> []" "py_strip b \<noteq> []"
    using assms py_float_empty by auto
  then show ?thesis
    using assms by (simp add: spec_two_numeric_parts_def)
qed

lemma analyze_item_policy:
  assumes "analyze_item item = Inr item'"
  shows "\<exists>v rng. py_float (Value item) = Some v
           \<and> spec_parse_range (Reference_Range item) = Some rng
           \<and> item' = item\<lparr>Category := Some (category_name (spec_category v rng))\<rparr>"
proof -
  obtain v where v: "py_float (Value item) = Some v"
    using assms by (auto simp: analyze_item_def split: option.splits)
  show ?thesis
  proof (cases "length (py_split ''-'' (Reference_Range item)) = 2")
    case True
    then obtain a b where ab: "py_split ''-'' (Reference_Range item) = [a, b]"
      using length_two by blast
    from assms v True ab obtain low high where
      lh: "py_float (py_strip a) = Some low" "py_float (py_strip b) = Some high"
      by (auto simp: analyze_item_def split: option.splits)
    have "spec_parse_range (Reference_Range item) = Some (Bounded low high)"
      using two_parts_bounded [OF ab lh] by (simp add: spec_parse_range_def)
    moreover have "item' = item\<lparr>Category := Some (category_name (spec_category v (Bounded low high)))\<rparr>"
      using assms v True ab lh by (auto simp: analyze_item_def)
    ultimately show ?thesis using v by blast
  next
    case False
    from assms v False obtain sign rest t where
      rr: "Reference_Range item = sign # rest" and t: "py_float rest = Some t"
      by (auto simp: analyze_item_def split: option.splits list.splits if_splits)
    let ?rng = "OneSided (if sign = CHR ''<'' then LessThan else GreaterThan) t"
    have "spec_parse_range (Reference_Range item) = Some ?rng"
      using two_parts_length [OF False] rr t by (simp add: spec_parse_range_def spec_one_sided_def)
    moreover have "item' = item\<lparr>Category := Some (category_name (spec_category v ?rng))\<rparr>"
      using assms v False rr t by (auto simp: analyze_item_def split: if_splits)
    ultimately show ?thesis using v by blast
  qed
qed

lemma analyze_item_Category:
  "analyze_item (item\<lparr>Category := c\<rparr>) = analyze_item item"
  by (simp add: analyze_item_def cong: option.case_cong list.case_cong if_cong)

lemma analyze_item_again:
  assumes "analyze_item item = Inr item'"
  shows "analyze_item item' = Inr item'"
proof -
  obtain c where "item' = item\<lparr>Category := c\<rparr>"
    using analyze_item_policy [OF assms] by blast
  then show ?thesis
    using assms by (simp add: analyze_item_Category)
qed

lemma analyze_loop_frame:
  "analyze_loop st data = (st', e) \<Longrightarrow> st' a = (st a)\<lparr>Category := Category (st' a)\<rparr>"
proof (induction data arbitrary: st)
  case Nil
  then show ?case by simp
next
  case (Cons b data)
  show ?case
  proof (cases "analyze_item (st b)")
    case (Inl err)
    with Cons.prems show ?thesis by simp
  next
    case (Inr item)
    with Cons.prems have "analyze_loop (st(b := item)) data = (st', e)" by simp
    from Cons.IH [OF this]
    have step: "st' a = ((st(b := item)) a)\<lparr>Category := Category (st' a)\<rparr>" .
    obtain c where c: "item = (st b)\<lparr>Category := c\<rparr>"
      using analyze_item_policy [OF Inr] by blast
    show ?thesis
    proof (cases "a = b")
      case True
      with step have "st' a = item\<lparr>Category := Category (st' a)\<rparr>" by simp
      then have "st' a = (st b)\<lparr>Category := c\<rparr>\<lparr>Category := Category (st' a)\<rparr>"
        using c by simp
      then show ?thesis using True by simp
    next
      case False
      with step show ?thesis by simp
    qed
  qed
qed

lemma analyze_loop_untouched:
  "analyze_loop st data = (st', e) \<Longrightarrow> a \<notin> set data \<Longrightarrow> st' a = st a"
proof (induction data arbitrary: st)
  case Nil
  then show ?case by simp
next
  case (Cons b data)
  then show ?case
    by (cases "analyze_item (st b)") auto
qed

lemma analyze_loop_classified:
  "analyze_loop st data = (st', None) \<Longrightarrow> a \<in> set data \<Longrightarrow> analyze_item (st a) = Inr (st' a)"
proof (induction data arbitrary: st)
  case Nil
  then show ?case by simp
next
  case (Cons b data)
  from Cons.prems(1) obtain item where item: "analyze_item (st b) = Inr item"
    and rest: "analyze_loop (st(b := item)) data = (st', None)"
    by (cases "analyze_item (st b)") auto
  show ?case
  proof (cases "a \<in> set data")
    case True
    from Cons.IH [OF rest True] have *: "analyze_item ((st(b := item)) a) = Inr (st' a)" .
    show ?thesis
    proof (cases "a = b")
      case True
      with * have "analyze_item item = Inr (st' a)" by simp
      with analyze_item_again [OF item] have "st' a = item" by simp
      with item True show ?thesis by simp
    next
      case False
      with * show ?thesis by simp
    qed
  next
    case False
    with Cons.prems(2) have "a = b" by simp
    moreover have "st' a = (st(b := item)) a"
      using analyze_loop_untouched [OF rest False] .
    ultimately show ?thesis using item by simp
  qed
qed

lemma analyze_loop_error:
  "a \<in> set data \<Longrightarrow> analyze_item (st a) = Inl err \<Longrightarrow> \<exists>e. snd (analyze_loop st data) = Some e"
proof (induction data arbitrary: st)
  case Nil
  then show ?case by simp
next
  case (Cons b data)
  show ?case
  proof (cases "analyze_item (st b)")
    case (Inl e)
    then show ?thesis by simp
  next
    case (Inr item)
    have ne: "a \<noteq> b" using Cons.prems Inr by auto
    then have "a \<in> set data" using Cons.prems by simp
    moreover have "analyze_item ((st(b := item)) a) = Inl err" using ne Cons.prems by simp
    ultimately have "\<exists>e. snd (analyze_loop (st(b := item)) data) = Some e"
      by (rule Cons.IH)
    then show ?thesis using Inr by simp
  qed
qed

lemma analyze_loop_all:
  "(\<forall>a \<in> set data. \<exists>item. analyze_item (st a) = Inr item) \<Longrightarrow> snd (analyze_loop st data) = None"
proof (induction data arbitrary: st)
  case Nil
  then show ?case by simp
next
  case (Cons b data)
  then obtain item where item: "analyze_item (st b) = Inr item" by auto
  have "\<forall>a \<in> set data. \<exists>item'. analyze_item ((st(b := item)) a) = Inr item'"
    using Cons.prems item analyze_item_again by auto
  then have "snd (analyze_loop (st(b := item)) data) = None"
    by (rule Cons.IH)
  then show ?case using item by simp
qed

lemmas string_defs = py_split_def py_strip_def is_space_def ord_def Let_def

lemma float_13_5: "py_float ''13.5'' = Some (Fin (27 / 2))" by (simp add: float_defs)
lemma float_13_0: "py_float ''13.0'' = Some (Fin 13)" by (simp add: float_defs)
lemma float_17_0: "py_float ''17.0'' = Some (Fin 17)" by (simp add: float_defs)
lemma float_3: "py_float ''3'' = Some (Fin 3)" by (simp add: float_defs)
lemma float_5: "py_float ''5'' = Some (Fin 5)" by (simp add: float_defs)
lemma float_1: "py_float ''1'' = Some (Fin 1)" by (simp add: float_defs)
lemma float_nan: "py_float ''nan'' = Some NaN" by (simp add: float_defs)
lemma float_abc: "py_float ''abc'' = None" by (simp add: float_defs)
lemma float_lt: "py_float ''<'' = None" by (simp add: float_defs)
lemma float_m5: "py_float ''-5'' = Some (Fin (- 5))" by (simp add: float_defs)
lemma float_6_1: "py_float ''6.1'' = Some (Fin (3433994715870003 / 562949953421312))" by (simp add: float_defs)
lemma float_4_5: "py_float ''4.5'' = Some (Fin (9 / 2))" by (simp add: float_defs)

lemmas float_facts = float_13_5 float_13_0 float_17_0 float_3 float_5 float_1 float_nan
  float_abc float_lt float_m5 float_6_1 float_4_5 py_float_empty

subsection \<open>Evaluations of the loop body\<close>

lemma analyze_normal:
  "analyze_item (obs ''Hemoglobin'' ''13.5'' ''g/dL'' ''13.0 - 17.0'')
     = Inr ((obs ''Hemoglobin'' ''13.5'' ''g/dL'' ''13.0 - 17.0'')\<lparr>Category := Some ''Normal''\<rparr>)"
  by (simp add: analyze_item_def obs_def string_defs float_facts fgt_def)

lemma analyze_high:
  "analyze_item (obs ''TSH'' ''6.1'' (micro # ''IU/mL'') ''<4.5'')
     = Inr ((obs ''TSH'' ''6.1'' (micro # ''IU/mL'') ''<4.5'')\<lparr>Category := Some ''High''\<rparr>)"
  by (simp add: analyze_item_def obs_def string_defs float_facts fgt_def)

lemma analyze_nan:
  "analyze_item (obs ''Hemoglobin'' ''3'' ''g/dL'' ''nan - 5'')
     = Inr ((obs ''Hemoglobin'' ''3'' ''g/dL'' ''nan - 5'')\<lparr>Category := Some ''Normal''\<rparr>)"
  by (simp add: analyze_item_def obs_def string_defs float_facts fgt_def)

lemma analyze_not_a_number:
  "analyze_item (obs ''Hemoglobin'' ''abc'' ''g/dL'' ''13.0 - 17.0'') = Inl ValueError"
  by (simp add: analyze_item_def obs_def float_facts)

lemma analyze_empty_range:
  "analyze_item (obs ''Hemoglobin'' ''13.5'' ''g/dL'' '''') = Inl IndexError"
  by (simp add: analyze_item_def obs_def string_defs float_facts)

lemma analyze_negative_threshold:
  "analyze_item (obs ''TSH'' ''1'' ''mg/dL'' ''<-5'') = Inl ValueError"
  by (simp add: analyze_item_def obs_def string_defs float_facts)

lemma not_flt_iff_fle: "a \<noteq> NaN \<Longrightarrow> b \<noteq> NaN \<Longrightarrow> (\<not> flt a b) = fle b a"
  by (cases a; cases b) auto

lemma spec_parse_range_one_sided:
  assumes "spec_parse_range rr = Some (OneSided opr t)"
  shows "\<exists>sign rest. rr = sign # rest \<and> py_float rest = Some t
           \<and> opr = (if sign = CHR ''<'' then LessThan else GreaterThan)"
proof -
  have "spec_one_sided rr = Some (OneSided opr t)"
    using assms by (auto simp: spec_parse_range_def split: option.splits)
  then show ?thesis
  proof (cases rr)
    case Nil
    with \<open>spec_one_sided rr = Some (OneSided opr t)\<close> show ?thesis
      by (simp add: spec_one_sided_def)
  next
    case (Cons sign rest)
    with \<open>spec_one_sided rr = Some (OneSided opr t)\<close> show ?thesis
      by (cases "py_float rest") (simp_all add: spec_one_sided_def)
  qed
qed

text \<open>
  C1 (amended). For every classified observation, the category that
  \<open>analyze_test_results\<close> assigns is the one of the specification's policy, for the value
  read by \<open>float\<close> and the range read by the specification's parsing policy: with
  \<open>Bounded{low, high}\<close>, Low if value < low, else High if value > high, else Normal; with
  \<open>OneSided{LessThan, threshold}\<close> (first character \<open><\<close>), High iff value > threshold
  and Normal otherwise, never Low; with \<open>OneSided{GreaterThan, threshold}\<close> (any other
  first character), Low iff value < threshold and Normal otherwise, never High. For a
  bounded range, Normal is equivalent to low <= value <= high when none of the three
  floats is NaN.
\<close>

theorem classification_policy:
  assumes "analyze_test_results st data = (st', Inr out)" and "a \<in> set data"
  shows "\<exists>v rng. py_float (Value (st a)) = Some v
           \<and> spec_parse_range (Reference_Range (st a)) = Some rng
           \<and> Category (st' a) = Some (category_name (spec_category v rng))
           \<and> (case rng of
                 Bounded low high \<Rightarrow>
                   (v \<noteq> NaN \<and> low \<noteq> NaN \<and> high \<noteq> NaN \<longrightarrow>
                      (Category (st' a) = Some ''Normal'' \<longleftrightarrow> fle low v \<and> fle v high))
               | OneSided LessThan t \<Rightarrow>
                   hd (Reference_Range (st a)) = CHR ''<''
                   \<and> Category (st' a) \<noteq> Some ''Low''
                   \<and> (Category (st' a) = Some ''High'' \<longleftrightarrow> fgt v t)
               | OneSided GreaterThan t \<Rightarrow>
                   hd (Reference_Range (st a)) \<noteq> CHR ''<''
                   \<and> Category (st' a) \<noteq> Some ''High''
                   \<and> (Category (st' a) = Some ''Low'' \<longleftrightarrow> flt v t))"
proof -
  have "analyze_loop st data = (st', None)"
    using assms(1) by (auto simp: analyze_test_results_def split: prod.splits option.splits)
  then have "analyze_item (st a) = Inr (st' a)"
    using assms(2) by (rule analyze_loop_classified)
  then obtain v rng where v: "py_float (Value (st a)) = Some v"
    and rng: "spec_parse_range (Reference_Range (st a)) = Some rng"
    and cat: "st' a = (st a)\<lparr>Category := Some (category_name (spec_category v rng))\<rparr>"
    using analyze_item_policy by blast
  have c: "Category (st' a) = Some (category_name (spec_category v rng))"
    by (subst cat) simp
  have "case rng of
          Bounded low high \<Rightarrow>
            (v \<noteq> NaN \<and> low \<noteq> NaN \<and> high \<noteq> NaN \<longrightarrow>
               (Category (st' a) = Some ''Normal'' \<longleftrightarrow> fle low v \<and> fle v high))
        | OneSided LessThan t \<Rightarrow>
            hd (Reference_Range (st a)) = CHR ''<''
            \<and> Category (st' a) \<noteq> Some ''Low''
            \<and> (Category (st' a) = Some ''High'' \<longleftrightarrow> fgt v t)
        | OneSided GreaterThan t \<Rightarrow>
            hd (Reference_Range (st a)) \<noteq> CHR ''<''
            \<and> Category (st' a) \<noteq> Some ''High''
            \<and> (Category (st' a) = Some ''Low'' \<longleftrightarrow> flt v t)"
  proof (cases rng)
    case (Bounded low high)
    then show ?thesis
      using c not_flt_iff_fle [of v low] not_flt_iff_fle [of high v]
      by (auto simp: fgt_def)
  next
    case (OneSided opr t)
    then obtain sign rest where "Reference_Range (st a) = sign # rest"
      and "opr = (if sign = CHR ''<'' then LessThan else GreaterThan)"
      using rng spec_parse_range_one_sided by blast
    then show ?thesis
      using c OneSided by (cases opr) (auto split: if_splits)
  qed
  with v rng c show ?thesis by blast
qed

text \<open>
  A table of two rows: the first is classified Normal, its value 13.5 lying between 13
  and 17.
\<close>

theorem classification_policy_witness:
  "Category (fst (analyze_test_results
       (store_of [obs ''Hemoglobin'' ''13.5'' ''g/dL'' ''13.0 - 17.0'',
                  obs ''TSH'' ''6.1'' (micro # ''IU/mL'') ''<4.5'']) [0, 1]) 0) = Some ''Normal''
   \<and> fle (Fin 13) (Fin (27 / 2)) \<and> fle (Fin (27 / 2)) (Fin 17)
   \<and> spec_parse_range ''13.0 - 17.0'' = Some (Bounded (Fin 13) (Fin 17))"
proof -
  let ?st = "store_of [obs ''Hemoglobin'' ''13.5'' ''g/dL'' ''13.0 - 17.0'',
                       obs ''TSH'' ''6.1'' (micro # ''IU/mL'') ''<4.5'']"
  have run: "analyze_test_results ?st [0, 1]
               = (fst (analyze_test_results ?st [0, 1]), Inr ([0, 1], analyze_columns))"
    by (simp add: analyze_test_results_def store_of_def analyze_normal analyze_high)
  have v: "py_float (Value (?st 0)) = Some (Fin (27 / 2))"
    by (simp add: store_of_def obs_def float_facts)
  have r: "Reference_Range (?st 0) = ''13.0 - 17.0''"
    by (simp add: store_of_def obs_def)
  have p: "spec_parse_range ''13.0 - 17.0'' = Some (Bounded (Fin 13) (Fin 17))"
    by (simp add: spec_parse_range_def spec_two_numeric_parts_def string_defs float_facts)
  from classification_policy [OF run, of 0] v r p show ?thesis
    by (auto simp: fgt_def)
qed

text \<open>
  The claim as stated fails with a NaN bound: \<open>float('nan ')\<close> is NaN, both comparisons
  of the code are false and the category is Normal, while low <= value <= high is false.
\<close>

theorem classification_policy_counterexample:
  "snd (analyze_test_results (store_of [obs ''Hemoglobin'' ''3'' ''g/dL'' ''nan - 5'']) [0])
     = Inr ([0], analyze_columns)
   \<and> Category (fst (analyze_test_results
         (store_of [obs ''Hemoglobin'' ''3'' ''g/dL'' ''nan - 5'']) [0]) 0) = Some ''Normal''
   \<and> py_float ''3'' = Some (Fin 3)
   \<and> spec_parse_range ''nan - 5'' = Some (Bounded NaN (Fin 5))
   \<and> \<not> (fle NaN (Fin 3) \<and> fle (Fin 3) (Fin 5))"
  by (simp add: analyze_test_results_def store_of_def analyze_nan float_facts
      spec_parse_range_def spec_two_numeric_parts_def string_defs)

lemma analyze_item_malformed:
  assumes "py_float (Value item) = None \<or> Reference_Range item = []"
  shows "\<exists>e. analyze_item item = Inl e"
proof (cases "py_float (Value item)")
  case None
  then show ?thesis by (simp add: analyze_item_def)
next
  case (Some v)
  with assms have "Reference_Range item = []" by simp
  with Some show ?thesis by (simp add: analyze_item_def string_defs)
qed

lemma float_1_comma_5: "py_float ''1,5'' = None" by (simp add: float_defs)

lemma analyze_comma_value:
  "analyze_item (obs ''Hemoglobin'' ''1,5'' ''g/dL'' ''13.0 - 17.0'') = Inl ValueError"
  by (simp add: analyze_item_def obs_def float_1_comma_5)

lemma analyze_item_value_error:
  "py_float (Value item) = None \<Longrightarrow> analyze_item item = Inl ValueError"
  by (simp add: analyze_item_def)

lemma analyze_item_index_error:
  "py_float (Value item) = Some v \<Longrightarrow> Reference_Range item = [] \<Longrightarrow>
     analyze_item item = Inl IndexError"
  by (simp add: analyze_item_def string_defs)

lemma analyze_item_errors:
  assumes "analyze_item item = Inl e"
  shows "e = ValueError \<or> e = IndexError"
proof (cases "py_float (Value item)")
  case None
  with assms show ?thesis by (simp add: analyze_item_def)
next
  case v: (Some v)
  show ?thesis
  proof (cases "length (py_split ''-'' (Reference_Range item)) = 2")
    case True
    with assms v show ?thesis
      by (cases "py_float (py_strip (py_split ''-'' (Reference_Range item) ! 0))";
          cases "py_float (py_strip (py_split ''-'' (Reference_Range item) ! 1))")
        (simp_all add: analyze_item_def)
  next
    case False
    show ?thesis
    proof (cases "Reference_Range item")
      case Nil
      with assms v False show ?thesis by (simp add: analyze_item_def)
    next
      case (Cons sign rest)
      with assms v False show ?thesis
        by (cases "py_float rest"; cases "sign = CHR ''<''") (simp_all add: analyze_item_def)
    qed
  qed
qed

lemma analyze_item_store_update:
  assumes "analyze_item (st b) = Inr item"
  shows "analyze_item ((st(b := item)) x) = Inl e \<longleftrightarrow> analyze_item (st x) = Inl e"
    and "(\<exists>i. analyze_item ((st(b := item)) x) = Inr i) \<longleftrightarrow> (\<exists>i. analyze_item (st x) = Inr i)"
  using assms analyze_item_again [OF assms] by (cases "x = b"; simp)+

lemma analyze_loop_error_iff:
  "snd (analyze_loop st data) = Some e \<longleftrightarrow>
     (\<exists>pre a post. data = pre @ a # post
        \<and> (\<forall>b \<in> set pre. \<exists>item. analyze_item (st b) = Inr item)
        \<and> analyze_item (st a) = Inl e)"
proof (induction data arbitrary: st)
  case Nil
  then show ?case by simp
next
  case (Cons b data)
  show ?case
  proof (cases "analyze_item (st b)")
    case (Inl e0)
    have "(\<exists>pre a post. b # data = pre @ a # post
            \<and> (\<forall>c \<in> set pre. \<exists>item. analyze_item (st c) = Inr item)
            \<and> analyze_item (st a) = Inl e) \<longleftrightarrow> e = e0"
    proof
      assume "\<exists>pre a post. b # data = pre @ a # post
                \<and> (\<forall>c \<in> set pre. \<exists>item. analyze_item (st c) = Inr item)
                \<and> analyze_item (st a) = Inl e"
      then obtain pre a post where d: "b # data = pre @ a # post"
        and p: "\<forall>c \<in> set pre. \<exists>item. analyze_item (st c) = Inr item"
        and a: "analyze_item (st a) = Inl e"
        by blast
      show "e = e0"
      proof (cases pre)
        case Nil
        with d a Inl show ?thesis by simp
      next
        case (Cons c pre')
        with d have "b \<in> set pre" by simp
        with p Inl show ?thesis by auto
      qed
    next
      assume "e = e0"
      with Inl have "b # data = [] @ b # data
          \<and> (\<forall>c \<in> set []. \<exists>item. analyze_item (st c) = Inr item)
          \<and> analyze_item (st b) = Inl e"
        by simp
      then show "\<exists>pre a post. b # data = pre @ a # post
                   \<and> (\<forall>c \<in> set pre. \<exists>item. analyze_item (st c) = Inr item)
                   \<and> analyze_item (st a) = Inl e"
        by blast
    qed
    with Inl show ?thesis by auto
  next
    case (Inr item)
    note upd = analyze_item_store_update [where st = st and b = b and item = item, OF Inr]
    have "snd (analyze_loop st (b # data)) = Some e
            \<longleftrightarrow> snd (analyze_loop (st(b := item)) data) = Some e"
      using Inr by simp
    also have "\<dots> \<longleftrightarrow> (\<exists>pre a post. data = pre @ a # post
                  \<and> (\<forall>c \<in> set pre. \<exists>i. analyze_item ((st(b := item)) c) = Inr i)
                  \<and> analyze_item ((st(b := item)) a) = Inl e)"
      by (rule Cons.IH)
    also have "\<dots> \<longleftrightarrow> (\<exists>pre a post. data = pre @ a # post
                  \<and> (\<forall>c \<in> set pre. \<exists>i. analyze_item (st c) = Inr i)
                  \<and> analyze_item (st a) = Inl e)"
      by (simp only: upd)
    also have "\<dots> \<longleftrightarrow> (\<exists>pre a post. b # data = pre @ a # post
                  \<and> (\<forall>c \<in> set pre. \<exists>i. analyze_item (st c) = Inr i)
                  \<and> analyze_item (st a) = Inl e)"
    proof
      assume "\<exists>pre a post. data = pre @ a # post
                \<and> (\<forall>c \<in> set pre. \<exists>i. analyze_item (st c) = Inr i)
                \<and> analyze_item (st a) = Inl e"
      then obtain pre a post where "data = pre @ a # post"
        and "\<forall>c \<in> set pre. \<exists>i. analyze_item (st c) = Inr i"
        and "analyze_item (st a) = Inl e"
        by blast
      with Inr have "b # data = (b # pre) @ a # post
          \<and> (\<forall>c \<in> set (b # pre). \<exists>i. analyze_item (st c) = Inr i)
          \<and> analyze_item (st a) = Inl e"
        by simp
      then show "\<exists>pre a post. b # data = pre @ a # post
                   \<and> (\<forall>c \<in> set pre. \<exists>i. analyze_item (st c) = Inr i)
                   \<and> analyze_item (st a) = Inl e"
        by blast
    next
      assume "\<exists>pre a post. b # data = pre @ a # post
                \<and> (\<forall>c \<in> set pre. \<exists>i. analyze_item (st c) = Inr i)
                \<and> analyze_item (st a) = Inl e"
      then obtain pre a post where d: "b # data = pre @ a # post"
        and p: "\<forall>c \<in> set pre. \<exists>i. analyze_item (st c) = Inr i"
        and a: "analyze_item (st a) = Inl e"
        by blast
      show "\<exists>pre a post. data = pre @ a # post
              \<and> (\<forall>c \<in> set pre. \<exists>i. analyze_item (st c) = Inr i)
              \<and> analyze_item (st a) = Inl e"
      proof (cases pre)
        case Nil
        with d a Inr show ?thesis by simp
      next
        case (Cons c pre')
        with d p have "data = pre' @ a # post"
          and "\<forall>c \<in> set pre'. \<exists>i. analyze_item (st c) = Inr i"
          by simp_all
        with a show ?thesis by blast
      qed
    qed
    finally show ?thesis .
  qed
qed

lemma analyze_results_cases:
  "snd (analyze_test_results st data) =
     (case snd (analyze_loop st data) of
        None \<Rightarrow> Inr (data, analyze_columns)
      | Some e \<Rightarrow> Inl e)"
  by (cases "analyze_loop st data") (simp add: analyze_test_results_def split: option.splits)

lemma analyze_loop_None_iff:
  "snd (analyze_loop st data) = None
     \<longleftrightarrow> (\<forall>a \<in> set data. \<exists>item. analyze_item (st a) = Inr item)"
proof
  assume none: "snd (analyze_loop st data) = None"
  then obtain st' where "analyze_loop st data = (st', None)"
    by (cases "analyze_loop st data") simp
  then show "\<forall>a \<in> set data. \<exists>item. analyze_item (st a) = Inr item"
    using analyze_loop_classified by blast
next
  assume "\<forall>a \<in> set data. \<exists>item. analyze_item (st a) = Inr item"
  then show "snd (analyze_loop st data) = None"
    by (rule analyze_loop_all)
qed

text \<open>
  C3 (amended). \<open>analyze_test_results\<close> returns the batch, classified, if and only if every
  observation of it classifies. Otherwise it raises the exception of the first observation
  that does not classify, a ValueError or an IndexError, and returns no classified output
  for the batch. In particular it raises when some observation has a \<open>'Value'\<close> that
  \<open>float\<close> does not read (ValueError for that observation) or an empty
  \<open>'Reference Range'\<close> (IndexError for it, when its value is a number).
\<close>

theorem malformed_record_aborts_batch:
  "(snd (analyze_test_results st data) = Inr (data, analyze_columns)
      \<longleftrightarrow> (\<forall>a \<in> set data. \<exists>item. analyze_item (st a) = Inr item))
   \<and> (\<forall>res. snd (analyze_test_results st data) = Inr res \<longrightarrow>
         res = (data, analyze_columns)
         \<and> (\<forall>a \<in> set data.
               analyze_item (st a) = Inr (fst (analyze_test_results st data) a)))
   \<and> (\<forall>e. snd (analyze_test_results st data) = Inl e \<longleftrightarrow>
         (\<exists>pre a post. data = pre @ a # post
            \<and> (\<forall>b \<in> set pre. \<exists>item. analyze_item (st b) = Inr item)
            \<and> analyze_item (st a) = Inl e))
   \<and> (\<forall>e. snd (analyze_test_results st data) = Inl e \<longrightarrow> e = ValueError \<or> e = IndexError)
   \<and> (a \<in> set data \<and> (py_float (Value (st a)) = None \<or> Reference_Range (st a) = [])
        \<longrightarrow> snd (analyze_test_results st data) = Inl ValueError
            \<or> snd (analyze_test_results st data) = Inl IndexError)
   \<and> (py_float (Value (st a)) = None \<longrightarrow> analyze_item (st a) = Inl ValueError)
   \<and> (py_float (Value (st a)) \<noteq> None \<and> Reference_Range (st a) = []
        \<longrightarrow> analyze_item (st a) = Inl IndexError)"
proof -
  let ?res = "snd (analyze_test_results st data)"
  have ok: "?res = Inr (data, analyze_columns)
              \<longleftrightarrow> (\<forall>a \<in> set data. \<exists>item. analyze_item (st a) = Inr item)"
    using analyze_loop_None_iff [of st data]
    by (cases "snd (analyze_loop st data)") (simp_all add: analyze_results_cases)
  have ret: "\<forall>res. ?res = Inr res \<longrightarrow>
               res = (data, analyze_columns)
               \<and> (\<forall>a \<in> set data.
                     analyze_item (st a) = Inr (fst (analyze_test_results st data) a))"
  proof (intro allI impI)
    fix res
    assume r: "?res = Inr res"
    then have none: "snd (analyze_loop st data) = None" and res: "res = (data, analyze_columns)"
      by (auto simp: analyze_results_cases split: option.splits)
    then obtain st' where loop: "analyze_loop st data = (st', None)"
      by (cases "analyze_loop st data") simp
    then have "fst (analyze_test_results st data) = st'"
      by (simp add: analyze_test_results_def)
    with loop res show "res = (data, analyze_columns)
        \<and> (\<forall>a \<in> set data. analyze_item (st a) = Inr (fst (analyze_test_results st data) a))"
      using analyze_loop_classified by blast
  qed
  have err: "\<forall>e. ?res = Inl e \<longleftrightarrow>
               (\<exists>pre a post. data = pre @ a # post
                  \<and> (\<forall>b \<in> set pre. \<exists>item. analyze_item (st b) = Inr item)
                  \<and> analyze_item (st a) = Inl e)"
  proof
    fix e
    have "?res = Inl e \<longleftrightarrow> snd (analyze_loop st data) = Some e"
      by (simp add: analyze_results_cases split: option.splits)
    then show "?res = Inl e \<longleftrightarrow>
               (\<exists>pre a post. data = pre @ a # post
                  \<and> (\<forall>b \<in> set pre. \<exists>item. analyze_item (st b) = Inr item)
                  \<and> analyze_item (st a) = Inl e)"
      using analyze_loop_error_iff [of st data e] by simp
  qed
  have kinds: "\<forall>e. ?res = Inl e \<longrightarrow> e = ValueError \<or> e = IndexError"
    using err analyze_item_errors by blast
  have mal: "a \<in> set data \<and> (py_float (Value (st a)) = None \<or> Reference_Range (st a) = [])
               \<longrightarrow> ?res = Inl ValueError \<or> ?res = Inl IndexError"
  proof
    assume "a \<in> set data \<and> (py_float (Value (st a)) = None \<or> Reference_Range (st a) = [])"
    then obtain e0 where "a \<in> set data" "analyze_item (st a) = Inl e0"
      using analyze_item_malformed by blast
    then have "a \<in> set data" and "\<not> (\<exists>item. analyze_item (st a) = Inr item)"
      by simp_all
    then have "\<not> (\<forall>a \<in> set data. \<exists>item. analyze_item (st a) = Inr item)"
      by blast
    with ok have "?res \<noteq> Inr (data, analyze_columns)" by simp
    then obtain e where "?res = Inl e"
      by (auto simp: analyze_results_cases split: option.splits)
    with kinds show "?res = Inl ValueError \<or> ?res = Inl IndexError" by auto
  qed
  have v: "py_float (Value (st a)) = None \<longrightarrow> analyze_item (st a) = Inl ValueError"
    using analyze_item_value_error by blast
  have i: "py_float (Value (st a)) \<noteq> None \<and> Reference_Range (st a) = []
             \<longrightarrow> analyze_item (st a) = Inl IndexError"
    using analyze_item_index_error by blast
  from ok ret err kinds mal v i show ?thesis by blast
qed

text \<open>
  A batch whose second row has an empty reference range raises IndexError; a batch of two
  well-formed rows is returned.
\<close>

theorem malformed_record_aborts_batch_witness:
  "snd (analyze_test_results
       (store_of [obs ''Hemoglobin'' ''13.5'' ''g/dL'' ''13.0 - 17.0'',
                  obs ''Hemoglobin'' ''13.5'' ''g/dL'' '''']) [0, 1]) = Inl IndexError
   \<and> snd (analyze_test_results
       (store_of [obs ''Hemoglobin'' ''13.5'' ''g/dL'' ''13.0 - 17.0'',
                  obs ''TSH'' ''6.1'' (micro # ''IU/mL'') ''<4.5'']) [0, 1])
       = Inr ([0, 1], analyze_columns)"
proof -
  let ?bad = "store_of [obs ''Hemoglobin'' ''13.5'' ''g/dL'' ''13.0 - 17.0'',
                        obs ''Hemoglobin'' ''13.5'' ''g/dL'' '''']"
  let ?good = "store_of [obs ''Hemoglobin'' ''13.5'' ''g/dL'' ''13.0 - 17.0'',
                         obs ''TSH'' ''6.1'' (micro # ''IU/mL'') ''<4.5'']"
  have "[0, 1 :: nat] = [0] @ 1 # []
        \<and> (\<forall>b \<in> set [0 :: nat]. \<exists>item. analyze_item (?bad b) = Inr item)
        \<and> analyze_item (?bad 1) = Inl IndexError"
    by (simp add: store_of_def analyze_normal analyze_empty_range)
  then have "\<exists>pre a post. [0, 1 :: nat] = pre @ a # post
        \<and> (\<forall>b \<in> set pre. \<exists>item. analyze_item (?bad b) = Inr item)
        \<and> analyze_item (?bad a) = Inl IndexError"
    by blast
  then have bad: "snd (analyze_test_results ?bad [0, 1]) = Inl IndexError"
    using malformed_record_aborts_batch [of ?bad "[0, 1]" 1] by blast
  have "\<forall>a \<in> set [0, 1 :: nat]. \<exists>item. analyze_item (?good a) = Inr item"
    by (simp add: store_of_def analyze_normal analyze_high)
  then have "snd (analyze_test_results ?good [0, 1]) = Inr ([0, 1], analyze_columns)"
    using malformed_record_aborts_batch [of ?good "[0, 1]" 0] by blast
  with bad show ?thesis by blast
qed

text \<open>
  The claim as stated fails: with a well-formed first row and a second row whose value is
  \<open>1,5\<close>, the step ends in ValueError and returns nothing, although the first row alone is
  classified.
\<close>

theorem malformed_record_aborts_batch_counterexample:
  "snd (analyze_test_results
     (store_of [obs ''Hemoglobin'' ''13.5'' ''g/dL'' ''13.0 - 17.0'',
                obs ''Hemoglobin'' ''1,5'' ''g/dL'' ''13.0 - 17.0'']) [0, 1]) = Inl ValueError
   \<and> snd (analyze_test_results
     (store_of [obs ''Hemoglobin'' ''13.5'' ''g/dL'' ''13.0 - 17.0'']) [0])
       = Inr ([0], analyze_columns)"
  by (simp add: analyze_test_results_def store_of_def analyze_normal analyze_comma_value)

text \<open>
  C4 (amended). For an observation whose value is a number, the classifier takes the
  bounded branch exactly when the split of the reference range on \<open>-\<close> has exactly two
  parts: it then classifies with \<open>Bounded{low, high}\<close> if the two trimmed parts are
  non-empty and numeric, and raises ValueError otherwise. A range whose split has not
  exactly two parts never has two numeric parts and is handled by the one-sided branch
  keyed on its first character (IndexError on the empty string, ValueError when the rest
  is no number).
\<close>

theorem range_interpretation:
  assumes "py_float (Value item) = Some v"
  shows "(length (py_split ''-'' (Reference_Range item)) = 2 \<longrightarrow>
           analyze_item item =
             (case spec_two_numeric_parts (Reference_Range item) of
                Some (low, high) \<Rightarrow>
                  Inr (item\<lparr>Category :=
                    Some (category_name (spec_category v (Bounded low high)))\<rparr>)
              | None \<Rightarrow> Inl ValueError))
      \<and> (length (py_split ''-'' (Reference_Range item)) \<noteq> 2 \<longrightarrow>
           spec_two_numeric_parts (Reference_Range item) = None
           \<and> analyze_item item =
             (if Reference_Range item = [] then Inl IndexError
              else case spec_one_sided (Reference_Range item) of
                     Some rng \<Rightarrow>
                       Inr (item\<lparr>Category := Some (category_name (spec_category v rng))\<rparr>)
                   | None \<Rightarrow> Inl ValueError))"
proof (intro conjI impI)
  assume two: "length (py_split ''-'' (Reference_Range item)) = 2"
  then obtain a b where ab: "py_split ''-'' (Reference_Range item) = [a, b]"
    using length_two by blast
  show "analyze_item item =
          (case spec_two_numeric_parts (Reference_Range item) of
             Some (low, high) \<Rightarrow>
               Inr (item\<lparr>Category := Some (category_name (spec_category v (Bounded low high)))\<rparr>)
           | None \<Rightarrow> Inl ValueError)"
  proof (cases "py_float (py_strip a)")
    case None
    then show ?thesis
      using assms ab by (simp add: analyze_item_def spec_two_numeric_parts_def)
  next
    case low: (Some low)
    show ?thesis
    proof (cases "py_float (py_strip b)")
      case None
      then show ?thesis
        using assms ab low by (simp add: analyze_item_def spec_two_numeric_parts_def)
    next
      case (Some high)
      from two_parts_bounded [OF ab low Some] show ?thesis
        using assms ab low Some by (simp add: analyze_item_def)
    qed
  qed
next
  assume "length (py_split ''-'' (Reference_Range item)) \<noteq> 2"
  then show "spec_two_numeric_parts (Reference_Range item) = None"
    by (rule two_parts_length)
next
  assume ne: "length (py_split ''-'' (Reference_Range item)) \<noteq> 2"
  show "analyze_item item =
          (if Reference_Range item = [] then Inl IndexError
           else case spec_one_sided (Reference_Range item) of
                  Some rng \<Rightarrow> Inr (item\<lparr>Category := Some (category_name (spec_category v rng))\<rparr>)
                | None \<Rightarrow> Inl ValueError)"
  proof (cases "Reference_Range item")
    case Nil
    then show ?thesis using assms ne by (simp add: analyze_item_def)
  next
    case (Cons sign rest)
    then show ?thesis
      using assms ne by (cases "py_float rest") (simp_all add: analyze_item_def spec_one_sided_def)
  qed
qed

text \<open>
  One range for each case: two numeric parts, two parts of which the first is not numeric,
  and a single part.
\<close>

theorem range_interpretation_witness:
  "analyze_item (obs ''Hemoglobin'' ''13.5'' ''g/dL'' ''13.0 - 17.0'')
     = Inr ((obs ''Hemoglobin'' ''13.5'' ''g/dL'' ''13.0 - 17.0'')\<lparr>Category := Some ''Normal''\<rparr>)
   \<and> analyze_item (obs ''TSH'' ''1'' ''mg/dL'' ''<-5'') = Inl ValueError
   \<and> analyze_item (obs ''TSH'' ''6.1'' (micro # ''IU/mL'') ''<4.5'')
     = Inr ((obs ''TSH'' ''6.1'' (micro # ''IU/mL'') ''<4.5'')\<lparr>Category := Some ''High''\<rparr>)"
proof -
  have s1: "py_split ''-'' ''13.0 - 17.0'' = [''13.0 '', '' 17.0'']"
    and s2: "py_split ''-'' ''<-5'' = [''<'', ''5'']"
    and s3: "py_split ''-'' ''<4.5'' = [''<4.5'']"
    by (simp_all add: string_defs)
  have p1: "spec_two_numeric_parts ''13.0 - 17.0'' = Some (Fin 13, Fin 17)"
    and p2: "spec_two_numeric_parts ''<-5'' = None"
    and p3: "spec_one_sided ''<4.5'' = Some (OneSided LessThan (Fin (9 / 2)))"
    by (simp_all add: spec_two_numeric_parts_def spec_one_sided_def string_defs float_facts)
  have "analyze_item (obs ''Hemoglobin'' ''13.5'' ''g/dL'' ''13.0 - 17.0'')
          = Inr ((obs ''Hemoglobin'' ''13.5'' ''g/dL'' ''13.0 - 17.0'')\<lparr>Category := Some ''Normal''\<rparr>)"
    using range_interpretation [of "obs ''Hemoglobin'' ''13.5'' ''g/dL'' ''13.0 - 17.0''" "Fin (27 / 2)"]
    by (simp add: obs_def s1 p1 float_facts fgt_def)
  moreover have "analyze_item (obs ''TSH'' ''1'' ''mg/dL'' ''<-5'') = Inl ValueError"
    using range_interpretation [of "obs ''TSH'' ''1'' ''mg/dL'' ''<-5''" "Fin 1"]
    by (simp add: obs_def s2 p2 float_facts)
  moreover have "analyze_item (obs ''TSH'' ''6.1'' (micro # ''IU/mL'') ''<4.5'')
          = Inr ((obs ''TSH'' ''6.1'' (micro # ''IU/mL'') ''<4.5'')\<lparr>Category := Some ''High''\<rparr>)"
    using range_interpretation [of "obs ''TSH'' ''6.1'' (micro # ''IU/mL'') ''<4.5''"
        "Fin (3433994715870003 / 562949953421312)"]
    by (simp add: obs_def s3 p3 float_facts fgt_def)
  ultimately show ?thesis by blast
qed

text \<open>
  The claim as stated fails on \<open><-5\<close>: its split has no two numeric parts, the one-sided
  reading is \<open>OneSided{LessThan, -5}\<close>, but the code takes the bounded branch and raises
  ValueError on \<open>float('<')\<close>.
\<close>

theorem range_interpretation_counterexample:
  "spec_two_numeric_parts ''<-5'' = None
   \<and> spec_parse_range ''<-5'' = Some (OneSided LessThan (Fin (- 5)))
   \<and> py_float ''1'' = Some (Fin 1)
   \<and> analyze_item (obs ''TSH'' ''1'' ''mg/dL'' ''<-5'') = Inl ValueError"
  by (simp add: spec_parse_range_def spec_two_numeric_parts_def spec_one_sided_def
      string_defs float_facts analyze_negative_threshold)

lemma analyze_loop_fields:
  assumes "analyze_loop st data = (st', e)"
  shows "Name (st' a) = Name (st a) \<and> Date (st' a) = Date (st a)
       \<and> Test_Name (st' a) = Test_Name (st a) \<and> Value (st' a) = Value (st a)
       \<and> Unit (st' a) = Unit (st a) \<and> Reference_Range (st' a) = Reference_Range (st a)"
proof -
  obtain c where "st' a = (st a)\<lparr>Category := c\<rparr>"
    using analyze_loop_frame [OF assms] by blast
  then show ?thesis by simp
qed

text \<open>
  C9 (amended). \<open>analyze_test_results\<close> changes the records it is given in place: of a
  record of the batch only the field \<open>'Category'\<close> can differ afterwards, every other field
  is unchanged, and records outside the batch are untouched; on success it returns the
  list it was given, every record of it now carrying a category. \<open>clean_data\<close> returns
  records of its input, unchanged.
\<close>

theorem classification_updates_in_place:
  assumes "analyze_test_results st data = (st', res)"
  shows "(\<forall>a. Name (st' a) = Name (st a) \<and> Date (st' a) = Date (st a)
            \<and> Test_Name (st' a) = Test_Name (st a) \<and> Value (st' a) = Value (st a)
            \<and> Unit (st' a) = Unit (st a) \<and> Reference_Range (st' a) = Reference_Range (st a))
       \<and> (\<forall>a. a \<notin> set data \<longrightarrow> st' a = st a)
       \<and> (\<forall>out cols. res = Inr (out, cols) \<longrightarrow>
             out = data \<and> (\<forall>a \<in> set data. Category (st' a) \<noteq> None))
       \<and> set (clean_data rows) \<subseteq> set rows"
proof -
  obtain e where loop: "analyze_loop st data = (st', e)"
    using assms by (cases "analyze_loop st data") (auto simp: analyze_test_results_def split: option.splits)
  have "\<forall>a. Name (st' a) = Name (st a) \<and> Date (st' a) = Date (st a)
            \<and> Test_Name (st' a) = Test_Name (st a) \<and> Value (st' a) = Value (st a)
            \<and> Unit (st' a) = Unit (st a) \<and> Reference_Range (st' a) = Reference_Range (st a)"
    using analyze_loop_fields [OF loop] by blast
  moreover have "\<forall>a. a \<notin> set data \<longrightarrow> st' a = st a"
    using analyze_loop_untouched [OF loop] by blast
  moreover have "\<forall>out cols. res = Inr (out, cols) \<longrightarrow>
                   out = data \<and> (\<forall>a \<in> set data. Category (st' a) \<noteq> None)"
  proof (intro allI impI)
    fix out cols
    assume r: "res = Inr (out, cols)"
    with assms loop have e: "e = None" and out: "out = data"
      by (auto simp: analyze_test_results_def split: option.splits)
    have "\<forall>a \<in> set data. Category (st' a) \<noteq> None"
    proof
      fix a
      assume "a \<in> set data"
      with loop e have "analyze_item (st a) = Inr (st' a)"
        using analyze_loop_classified by blast
      then obtain c where "st' a = (st a)\<lparr>Category := Some c\<rparr>"
        using analyze_item_policy by blast
      then show "Category (st' a) \<noteq> None"
        by simp
    qed
    with out show "out = data \<and> (\<forall>a \<in> set data. Category (st' a) \<noteq> None)" by simp
  qed
  moreover have "set (clean_data rows) \<subseteq> set rows"
    by (simp add: clean_data_def clean_loop_filter)
  ultimately show ?thesis by blast
qed

text \<open>
  Of two records the first is classified: its value is unchanged and it has a category; the
  second, not in the batch, is the record it was.
\<close>

theorem classification_updates_in_place_witness:
  "Value (fst (analyze_test_results
       (store_of [obs ''Hemoglobin'' ''13.5'' ''g/dL'' ''13.0 - 17.0'',
                  obs ''TSH'' ''6.1'' (micro # ''IU/mL'') ''<4.5'']) [0]) 0) = ''13.5''
   \<and> fst (analyze_test_results
       (store_of [obs ''Hemoglobin'' ''13.5'' ''g/dL'' ''13.0 - 17.0'',
                  obs ''TSH'' ''6.1'' (micro # ''IU/mL'') ''<4.5'']) [0]) 1
       = obs ''TSH'' ''6.1'' (micro # ''IU/mL'') ''<4.5''
   \<and> Category (fst (analyze_test_results
       (store_of [obs ''Hemoglobin'' ''13.5'' ''g/dL'' ''13.0 - 17.0'',
                  obs ''TSH'' ''6.1'' (micro # ''IU/mL'') ''<4.5'']) [0]) 0) \<noteq> None"
proof -
  let ?st = "store_of [obs ''Hemoglobin'' ''13.5'' ''g/dL'' ''13.0 - 17.0'',
                       obs ''TSH'' ''6.1'' (micro # ''IU/mL'') ''<4.5'']"
  let ?st' = "fst (analyze_test_results ?st [0])"
  have run: "analyze_test_results ?st [0] = (?st', Inr ([0], analyze_columns))"
    by (simp add: analyze_test_results_def store_of_def analyze_normal)
  note frame = classification_updates_in_place [OF run, of "[]"]
  from frame have "Value (?st' 0) = Value (?st 0)" by simp
  then have v: "Value (?st' 0) = ''13.5''"
    by (simp add: store_of_def obs_def)
  from frame have "?st' 1 = ?st 1" by simp
  then have u: "?st' 1 = obs ''TSH'' ''6.1'' (micro # ''IU/mL'') ''<4.5''"
    by (simp add: store_of_def)
  from frame have "Category (?st' 0) \<noteq> None" by simp
  with v u show ?thesis by blast
qed

text \<open>
  The claim as stated fails: the record at address 0 has no category before the call and
  the category Normal after it, so the input record itself has changed.
\<close>

theorem classification_updates_in_place_counterexample:
  "Category (store_of [obs ''Hemoglobin'' ''13.5'' ''g/dL'' ''13.0 - 17.0''] 0) = None
   \<and> Category (fst (analyze_test_results
        (store_of [obs ''Hemoglobin'' ''13.5'' ''g/dL'' ''13.0 - 17.0'']) [0]) 0) = Some ''Normal''"
  by (simp add: analyze_test_results_def store_of_def analyze_normal) (simp add: obs_def)

section \<open>The whole pipeline on Scenario A\<close>

lemma extract_name_first: "extract_all_data_from_pdf [doc_name_first] = []"
  by code_simp

lemma extract_observation_first:
  "extract_all_data_from_pdf [doc_observation_first]
     = [obs ''Hemoglobin'' ''13.5'' ''g/dL'' ''13.0 - 17.0'']"
  by code_simp

lemma extract_no_name:
  "extract_all_data_from_pdf [doc_no_name]
     = [\<lparr>Name = None, Date = Some ''12/03/2023'', Test_Name = ''TSH'', Value = ''6.1'',
         Unit = ''mg/dL'', Reference_Range = ''<4.5'', Category = None\<rparr>]"
  by code_simp

lemma findall_name_first:
  "map (\<lambda>g. map (group_text g) [1, 2, 3, 4]) (re_findall pattern doc_name_first)
     = [['' John Smith'', ''12'', ''/03/2023'', ''Hemoglobin 13.5 g/dL 13.0 - 17.0'']]"
  by code_simp

lemma extract_Category:
  assumes "r \<in> set (extract_all_data_from_pdf pages)"
  shows "Category r = None"
proof -
  have "set (clean_data xs) \<subseteq> set xs" for xs
    by (simp add: clean_data_def clean_loop_filter)
  then show ?thesis
    using assms by (fastforce simp: extract_all_data_from_pdf_def Let_def)
qed

lemma handle_upload_table:
  "table_data (handle_upload (Some docs)) = concat (map extract_all_data_from_pdf docs)"
proof -
  let ?files = "concat (map extract_all_data_from_pdf docs)"
  have "Category r = None" if "r \<in> set ?files" for r
    using that extract_Category by auto
  then have "map (\<lambda>entry. \<lparr>Name = Name entry, Date = Date entry, Test_Name = Test_Name entry,
                 Value = Value entry, Unit = Unit entry,
                 Reference_Range = Reference_Range entry, Category = None\<rparr>) ?files = ?files"
    by (intro map_idI) simp
  then show ?thesis
    by (simp add: handle_upload_def Let_def)
qed

text \<open>
  C5 (amended). For the document whose text is the line
  \<open>Hemoglobin 13.5 g/dL 13.0 - 17.0\<close> followed by the lines \<open>Name: Mr. John Smith\<close> and
  \<open>12/03/2023\<close>, extraction, validation and classification produce exactly one classified
  observation, with Name \<open>John Smith\<close>, Date \<open>12/03/2023\<close>, Test Name \<open>Hemoglobin\<close>,
  Value \<open>13.5\<close>, Unit \<open>g/dL\<close>, Reference Range \<open>13.0 - 17.0\<close> and Category \<open>Normal\<close>.
\<close>

theorem scenario_a_observation_first:
  "upload_and_analyze [[doc_observation_first]]
     = Inr [\<lparr>Name = Some ''John Smith'', Date = Some ''12/03/2023'', Test_Name = ''Hemoglobin'',
             Value = ''13.5'', Unit = ''g/dL'', Reference_Range = ''13.0 - 17.0'',
             Category = Some ''Normal''\<rparr>]"
  by (simp add: upload_and_analyze_def handle_upload_table extract_observation_first
      analyze_test_results_def store_of_def analyze_normal) (simp add: obs_def)

text \<open>
  The claim as stated fails for the document that has the three pieces in the order of
  the claim, one per line: the label \<open>[\w\s]+\<close> of the pattern runs over the line break,
  the only match takes \<open>John Smith\<close> as the test name, \<open>12\<close> as the value and the whole
  Hemoglobin line as the reference range, and the validator drops it. No observation is
  produced.
\<close>

theorem scenario_a_name_first_counterexample:
  "upload_and_analyze [[doc_name_first]] = Inr []
   \<and> map (\<lambda>g. map (group_text g) [1, 2, 3, 4]) (re_findall pattern doc_name_first)
     = [['' John Smith'', ''12'', ''/03/2023'', ''Hemoglobin 13.5 g/dL 13.0 - 17.0'']]"
proof
  show "upload_and_analyze [[doc_name_first]] = Inr []"
    by (simp add: upload_and_analyze_def handle_upload_table extract_name_first
        analyze_test_results_def)
  show "map (\<lambda>g. map (group_text g) [1, 2, 3, 4]) (re_findall pattern doc_name_first)
          = [['' John Smith'', ''12'', ''/03/2023'', ''Hemoglobin 13.5 g/dL 13.0 - 17.0'']]"
    by (rule findall_name_first)
qed

section \<open>The extracted patient name\<close>

subsection \<open>What a match of an item tells\<close>

lemma try_rep_Some:
  "try_rep ps prev s ops grp lo k = Some r \<Longrightarrow> lo \<le> k \<Longrightarrow>
     \<exists>j. lo \<le> j \<and> j \<le> k \<and> re_match ps (prev_after j prev s) (drop j s) ops grp = Some r"
proof (induction k)
  case 0
  then have "re_match ps (prev_after 0 prev s) (drop 0 s) ops grp = Some r"
    by (subst (asm) try_rep.simps) (simp split: option.splits)
  with 0 show ?case by blast
next
  case (Suc k)
  show ?case
  proof (cases "re_match ps (prev_after (Suc k) prev s) (drop (Suc k) s) ops grp")
    case (Some r')
    with Suc.prems(1) have "r' = r" by (subst (asm) try_rep.simps) simp
    with Some Suc.prems(2) show ?thesis by blast
  next
    case None
    with Suc.prems(1) have "lo < Suc k \<and> try_rep ps prev s ops grp lo k = Some r"
      by (subst (asm) try_rep.simps) (simp split: if_splits)
    then have "\<exists>j. lo \<le> j \<and> j \<le> k
                 \<and> re_match ps (prev_after j prev s) (drop j s) ops grp = Some r"
      using Suc.IH by simp
    then show ?thesis by (meson le_SucI)
  qed
qed

lemma match_Rep:
  assumes "re_match (Rep cls lo hi # ps) prev s ops grp = Some r"
  shows "\<exists>j. lo \<le> j \<and> j \<le> length s
           \<and> re_match ps (prev_after j prev s) (drop j s) ops grp = Some r"
proof -
  define n where "n = (case hi of None \<Rightarrow> length (takeWhile cls s)
                        | Some h \<Rightarrow> min h (length (takeWhile cls s)))"
  have n: "n \<le> length s"
    using length_takeWhile_le [of cls s] by (auto simp: n_def split: option.splits)
  from assms have "try_rep ps prev s ops grp lo n = Some r" and "lo \<le> n"
    by (simp_all add: n_def Let_def split: if_splits)
  from try_rep_Some [OF this] n show ?thesis
    by (meson le_trans)
qed

lemma match_Lit:
  assumes "re_match (Lit c # ps) prev s ops grp = Some r"
  shows "\<exists>xs. s = c # xs \<and> re_match ps (Some c) xs ops grp = Some r"
  using assms by (cases s) (auto split: if_splits)

lemma try_alts_Some:
  "try_alts ps prev s ops grp alts = Some r \<Longrightarrow>
     \<exists>prev' s'. re_match ps prev' s' ops grp = Some r"
  by (induction alts) (auto split: option.splits if_splits)

lemma match_OptAlt:
  assumes "re_match (OptAlt alts # ps) prev s ops grp = Some r"
  shows "\<exists>prev' s'. re_match ps prev' s' ops grp = Some r"
  using assms try_alts_Some by simp

text \<open>The group of the name pattern holds at least one character.\<close>

lemma name_group_nonempty:
  assumes "re_match [Open 1, Rep is_ascii_letter 1 None, Rep is_space 1 None,
              Rep is_ascii_letter 1 None, Close 1] prev s ops grp = Some r"
  shows "\<exists>n. fst r 1 = Some n \<and> n \<noteq> []"
proof -
  let ?ops = "ops(1 \<mapsto> s)"
  from assms have "re_match [Rep is_ascii_letter 1 None, Rep is_space 1 None,
      Rep is_ascii_letter 1 None, Close 1] prev s ?ops grp = Some r"
    by simp
  from match_Rep [OF this] obtain j1 where j1: "1 \<le> j1" "j1 \<le> length s"
    and m1: "re_match [Rep is_space 1 None, Rep is_ascii_letter 1 None, Close 1]
               (prev_after j1 prev s) (drop j1 s) ?ops grp = Some r"
    by blast
  from match_Rep [OF m1] obtain j2 where
    m2: "re_match [Rep is_ascii_letter 1 None, Close 1]
           (prev_after j2 (prev_after j1 prev s) (drop j1 s)) (drop j2 (drop j1 s)) ?ops grp
         = Some r"
    by blast
  from match_Rep [OF m2] obtain j3 p3 where
    m3: "re_match [Close 1] p3 (drop j3 (drop j2 (drop j1 s))) ?ops grp = Some r"
    by blast
  let ?rest = "drop j3 (drop j2 (drop j1 s))"
  from m3 have "fst r 1 = Some (take (length s - length ?rest) s)"
    by auto
  moreover have "length ?rest < length s"
    using j1 by simp
  then have "take (length s - length ?rest) s \<noteq> []"
    by (cases s) auto
  ultimately show ?thesis by blast
qed

lemma name_pattern_group:
  assumes "re_match name_pattern prev s Map.empty Map.empty = Some r"
  shows "\<exists>n. fst r 1 = Some n \<and> n \<noteq> []"
proof -
  let ?tail = "[Open 1, Rep is_ascii_letter 1 None, Rep is_space 1 None,
                Rep is_ascii_letter 1 None, Close 1]"
  note m = assms [unfolded name_pattern_def]
  from match_Lit [OF m] obtain s1 where
    "re_match (Lit CHR ''a'' # Lit CHR ''m'' # Lit CHR ''e'' # Rep is_space 0 None
       # Lit CHR '':'' # Rep is_space 0 None # OptAlt [''Mr.'', ''Ms.''] # Rep is_space 0 None
       # ?tail) (Some CHR ''N'') s1 Map.empty Map.empty = Some r"
    by blast
  from match_Lit [OF this] obtain s2 where
    "re_match (Lit CHR ''m'' # Lit CHR ''e'' # Rep is_space 0 None
       # Lit CHR '':'' # Rep is_space 0 None # OptAlt [''Mr.'', ''Ms.''] # Rep is_space 0 None
       # ?tail) (Some CHR ''a'') s2 Map.empty Map.empty = Some r"
    by blast
  from match_Lit [OF this] obtain s3 where
    "re_match (Lit CHR ''e'' # Rep is_space 0 None
       # Lit CHR '':'' # Rep is_space 0 None # OptAlt [''Mr.'', ''Ms.''] # Rep is_space 0 None
       # ?tail) (Some CHR ''m'') s3 Map.empty Map.empty = Some r"
    by blast
  from match_Lit [OF this] obtain s4 where
    "re_match (Rep is_space 0 None
       # Lit CHR '':'' # Rep is_space 0 None # OptAlt [''Mr.'', ''Ms.''] # Rep is_space 0 None
       # ?tail) (Some CHR ''e'') s4 Map.empty Map.empty = Some r"
    by blast
  from match_Rep [OF this] obtain p5 s5 where
    "re_match (Lit CHR '':'' # Rep is_space 0 None # OptAlt [''Mr.'', ''Ms.'']
       # Rep is_space 0 None # ?tail) p5 s5 Map.empty Map.empty = Some r"
    by blast
  from match_Lit [OF this] obtain s6 where
    "re_match (Rep is_space 0 None # OptAlt [''Mr.'', ''Ms.'']
       # Rep is_space 0 None # ?tail) (Some CHR '':'') s6 Map.empty Map.empty = Some r"
    by blast
  from match_Rep [OF this] obtain p7 s7 where
    "re_match (OptAlt [''Mr.'', ''Ms.''] # Rep is_space 0 None # ?tail) p7 s7
       Map.empty Map.empty = Some r"
    by blast
  from match_OptAlt [OF this] obtain p8 s8 where
    "re_match (Rep is_space 0 None # ?tail) p8 s8 Map.empty Map.empty = Some r"
    by blast
  from match_Rep [OF this] obtain p9 s9 where
    "re_match ?tail p9 s9 Map.empty Map.empty = Some r"
    by blast
  then show ?thesis by (rule name_group_nonempty)
qed

lemma re_search_from_match:
  "re_search_from ps prev s = Some g \<Longrightarrow>
     \<exists>prev' s' r. re_match ps prev' s' Map.empty Map.empty = Some r \<and> fst r = g"
proof (induction s arbitrary: prev)
  case Nil
  then obtain r where "re_match ps prev [] Map.empty Map.empty = Some r" and "fst r = g"
    by auto
  then show ?case by blast
next
  case (Cons c cs)
  show ?case
  proof (cases "re_match ps prev (c # cs) Map.empty Map.empty")
    case None
    with Cons.prems have "re_search_from ps (Some c) cs = Some g" by simp
    then show ?thesis by (rule Cons.IH)
  next
    case (Some r)
    with Cons.prems have "fst r = g" by simp
    with Some show ?thesis by blast
  qed
qed

lemma extract_Name:
  assumes "r \<in> set (extract_all_data_from_pdf pages)"
  shows "Name r = None \<or> (\<exists>n. Name r = Some n \<and> n \<noteq> [])"
proof -
  let ?name = "case re_search name_pattern (concat pages) of None \<Rightarrow> None | Some g \<Rightarrow> g 1"
  have sub: "set (clean_data xs) \<subseteq> set xs" for xs
    by (simp add: clean_data_def clean_loop_filter)
  have "Name r = ?name"
    using assms sub by (fastforce simp: extract_all_data_from_pdf_def Let_def)
  moreover have "?name = None \<or> (\<exists>n. ?name = Some n \<and> n \<noteq> [])"
  proof (cases "re_search name_pattern (concat pages)")
    case None
    then show ?thesis by simp
  next
    case (Some g)
    then obtain prev' s' m where m: "re_match name_pattern prev' s' Map.empty Map.empty = Some m"
      and g: "fst m = g"
      using re_search_from_match unfolding re_search_def by blast
    from name_pattern_group [OF m] obtain n where "fst m 1 = Some n" and n: "n \<noteq> []"
      by blast
    with g have "g 1 = Some n" by simp
    with Some n show ?thesis by simp
  qed
  ultimately show ?thesis by simp
qed

section \<open>The patient dropdown\<close>

lemma collect_rows_nameless:
  "None \<notin> set selected_names \<Longrightarrow>
     collect_rows selected_names td (filter (\<lambda>r. Name r \<noteq> None) table)
       = collect_rows selected_names td table"
proof (induction table arbitrary: td)
  case Nil
  then show ?case by simp
next
  case (Cons r table)
  show ?case
  proof (cases "Name r = None")
    case True
    with Cons.prems have "Name r \<notin> set selected_names" by simp
    with True Cons show ?thesis by simp
  next
    case False
    with Cons show ?thesis
      by (cases "py_float (Value r)") simp_all
  qed
qed

lemma update_charts_nameless:
  assumes "None \<notin> set selected_names"
  shows "update_charts selected_names (filter (\<lambda>r. Name r \<noteq> None) table)
           = update_charts selected_names table"
proof (cases "selected_names = []")
  case True
  then show ?thesis by (simp add: update_charts_def)
next
  case sel: False
  let ?named = "filter (\<lambda>r. Name r \<noteq> None) table"
  have rows: "collect_rows selected_names [] ?named = collect_rows selected_names [] table"
    using assms by (rule collect_rows_nameless)
  show ?thesis
  proof (cases "?named = []")
    case True
    with rows have "collect_rows selected_names [] table = Inr []" by simp
    with True sel show ?thesis by (simp add: update_charts_def dd_get_def)
  next
    case False
    then have "table \<noteq> []" by auto
    with False sel rows show ?thesis by (simp add: update_charts_def)
  qed
qed

lemma handle_upload_options:
  "dropdown_name_options (handle_upload contents)
     = {n. Some n \<in> Name ` set (table_data (handle_upload contents))}"
proof (cases contents)
  case None
  then show ?thesis by (simp add: handle_upload_def)
next
  case (Some docs)
  let ?files = "concat (map extract_all_data_from_pdf docs)"
  have table: "table_data (handle_upload (Some docs)) = ?files"
    by (rule handle_upload_table)
  have opts: "dropdown_name_options (handle_upload (Some docs))
                = the ` {name \<in> Name ` set ?files. truthy name}"
    by (auto simp: handle_upload_def Let_def)
  have "the ` {name \<in> Name ` set ?files. truthy name} = {n. Some n \<in> Name ` set ?files}"
  proof (intro set_eqI iffI)
    fix n
    assume "n \<in> the ` {name \<in> Name ` set ?files. truthy name}"
    then obtain name where "name \<in> Name ` set ?files" "truthy name" "n = the name"
      by blast
    then show "n \<in> {n. Some n \<in> Name ` set ?files}"
      by (cases name) (simp_all add: truthy_def)
  next
    fix n
    assume "n \<in> {n. Some n \<in> Name ` set ?files}"
    then obtain r where r: "r \<in> set ?files" and name: "Name r = Some n"
      by force
    from r obtain pages where "r \<in> set (extract_all_data_from_pdf pages)"
      by auto
    with name have "n \<noteq> []"
      using extract_Name by fastforce
    then have "truthy (Some n)" by (simp add: truthy_def)
    moreover have "Some n \<in> Name ` set ?files"
      using r name by force
    ultimately have mem: "Some n \<in> {name \<in> Name ` set ?files. truthy name}" by simp
    have "n = the (Some n)" by simp
    then show "n \<in> the ` {name \<in> Name ` set ?files. truthy name}"
      using mem by (rule image_eqI)
  qed
  with opts table Some show ?thesis by simp
qed

text \<open>
  C10. For every upload, the options of the patient dropdown are exactly the names, other
  than \<open>None\<close>, of the rows of the table (a set, so each name once). The table holds
  every extracted row, those without a name too. A selection made among the options never
  contains \<open>None\<close>, so the charts are the same as for the table without its nameless rows:
  a nameless row contributes to no chart.
\<close>

theorem nameless_observations_not_selectable:
  "dropdown_name_options (handle_upload contents)
     = {n. Some n \<in> Name ` set (table_data (handle_upload contents))}
   \<and> (\<forall>docs. table_data (handle_upload (Some docs))
                = concat (map extract_all_data_from_pdf docs))
   \<and> (set selected_names \<subseteq> Some ` dropdown_name_options (handle_upload contents) \<longrightarrow>
        update_charts selected_names (table_data (handle_upload contents))
          = update_charts selected_names
              (filter (\<lambda>r. Name r \<noteq> None) (table_data (handle_upload contents))))"
proof (intro conjI allI impI)
  show "dropdown_name_options (handle_upload contents)
          = {n. Some n \<in> Name ` set (table_data (handle_upload contents))}"
    by (rule handle_upload_options)
  show "table_data (handle_upload (Some docs)) = concat (map extract_all_data_from_pdf docs)"
    for docs
    by (rule handle_upload_table)
  assume "set selected_names \<subseteq> Some ` dropdown_name_options (handle_upload contents)"
  then have "None \<notin> set selected_names" by auto
  then show "update_charts selected_names (table_data (handle_upload contents))
          = update_charts selected_names
              (filter (\<lambda>r. Name r \<noteq> None) (table_data (handle_upload contents)))"
    by (rule update_charts_nameless [symmetric])
qed

lemma upload_two_documents:
  "table_data (handle_upload (Some [[doc_observation_first], [doc_no_name]]))
     = [obs ''Hemoglobin'' ''13.5'' ''g/dL'' ''13.0 - 17.0'',
        \<lparr>Name = None, Date = Some ''12/03/2023'', Test_Name = ''TSH'', Value = ''6.1'',
         Unit = ''mg/dL'', Reference_Range = ''<4.5'', Category = None\<rparr>]"
  by (simp add: handle_upload_table extract_observation_first extract_no_name)

text \<open>
  An upload of two documents, the second without a name: the only option is
  \<open>John Smith\<close>, the nameless row is in the table, and the charts for the selection of
  \<open>John Smith\<close> are those of the named row alone.
\<close>

theorem nameless_observations_not_selectable_witness:
  "dropdown_name_options (handle_upload (Some [[doc_observation_first], [doc_no_name]]))
     = {''John Smith''}
   \<and> table_data (handle_upload (Some [[doc_observation_first], [doc_no_name]]))
     = [obs ''Hemoglobin'' ''13.5'' ''g/dL'' ''13.0 - 17.0'',
        \<lparr>Name = None, Date = Some ''12/03/2023'', Test_Name = ''TSH'', Value = ''6.1'',
         Unit = ''mg/dL'', Reference_Range = ''<4.5'', Category = None\<rparr>]
   \<and> update_charts [Some ''John Smith'']
       (table_data (handle_upload (Some [[doc_observation_first], [doc_no_name]])))
     = update_charts [Some ''John Smith''] [obs ''Hemoglobin'' ''13.5'' ''g/dL'' ''13.0 - 17.0'']"
proof -
  let ?up = "handle_upload (Some [[doc_observation_first], [doc_no_name]])"
  note inst = nameless_observations_not_selectable
    [of "Some [[doc_observation_first], [doc_no_name]]" "[Some ''John Smith'']"]
  have opts: "dropdown_name_options ?up = {''John Smith''}"
    using inst by (auto simp: upload_two_documents obs_def)
  then have "set [Some ''John Smith''] \<subseteq> Some ` dropdown_name_options ?up"
    by simp
  with inst have "update_charts [Some ''John Smith''] (table_data ?up)
      = update_charts [Some ''John Smith''] (filter (\<lambda>r. Name r \<noteq> None) (table_data ?up))"
    by blast
  also have "filter (\<lambda>r. Name r \<noteq> None) (table_data ?up)
      = [obs ''Hemoglobin'' ''13.5'' ''g/dL'' ''13.0 - 17.0'']"
    by (simp add: upload_two_documents) (simp add: obs_def)
  finally show ?thesis
    using opts upload_two_documents by simp
qed

section \<open>The charts\<close>

subsection \<open>The dictionaries\<close>

lemma map_of_dd_update:
  "map_of (dd_update k dflt f d) k'
     = (if k' = k then Some (f (case map_of d k of None \<Rightarrow> dflt | Some v \<Rightarrow> v))
        else map_of d k')"
  by (induction d) auto

lemma dd_get_dd_update:
  "dd_get k' dflt (dd_update k dflt f d)
     = (if k' = k then f (dd_get k dflt d) else dd_get k' dflt d)"
  by (simp add: dd_get_def map_of_dd_update)

lemma keys_dd_update:
  "map fst (dd_update k dflt f d)
     = (if k \<in> fst ` set d then map fst d else map fst d @ [k])"
proof (induction d)
  case Nil
  then show ?case by simp
next
  case (Cons x d)
  obtain k' v where x: "x = (k', v)" by (cases x)
  show ?case
  proof (cases "k' = k")
    case True
    with x show ?thesis by simp
  next
    case False
    with x Cons show ?thesis by simp
  qed
qed

lemma distinct_dd_update:
  "distinct (map fst d) \<Longrightarrow> distinct (map fst (dd_update k dflt f d))"
  by (simp add: keys_dd_update)

lemma series_at_add_observation:
  "series_at (add_observation p t v d r td) p' t'
     = (if p' = p \<and> t' = t
        then Some ((case series_at td p t of None \<Rightarrow> empty_series | Some s \<Rightarrow> s)
                   \<lparr>s_values := s_values (case series_at td p t of None \<Rightarrow> empty_series | Some s \<Rightarrow> s) @ [v],
                    s_dates := s_dates (case series_at td p t of None \<Rightarrow> empty_series | Some s \<Rightarrow> s) @ [d],
                    s_range := s_range (case series_at td p t of None \<Rightarrow> empty_series | Some s \<Rightarrow> s) @ [r]\<rparr>)
        else series_at td p' t')"
  by (simp add: series_at_def add_observation_def dd_get_dd_update map_of_dd_update)

lemma keys_add_observation:
  "distinct (map fst (dd_get p' [] td)) \<Longrightarrow>
     distinct (map fst (dd_get p' [] (add_observation p t v d r td)))"
  by (auto simp: add_observation_def dd_get_dd_update intro: distinct_dd_update)


subsection \<open>The first loop\<close>

lemma extends_Nil: "extends base [] ser \<longleftrightarrow>
    map Some (s_values ser) = map Some (s_values base) \<and> s_dates ser = s_dates base
    \<and> s_range ser = s_range base"
  by (simp add: extends_def)

lemma extends_step:
  assumes "py_float (Value r) = Some v"
    and "extends (base\<lparr>s_values := s_values base @ [v], s_dates := s_dates base @ [Date r],
                        s_range := s_range base @ [Reference_Range r]\<rparr>) rs ser"
  shows "extends base (r # rs) ser"
  using assms by (simp add: extends_def)

lemma extends_single:
  assumes "py_float (Value r) = Some v"
  shows "extends base [r] (base\<lparr>s_values := s_values base @ [v], s_dates := s_dates base @ [Date r],
                        s_range := s_range base @ [Reference_Range r]\<rparr>)"
  using assms by (simp add: extends_def)

lemma pair_rows_Cons:
  "pair_rows sel (r # table) p t
     = (if Name r \<in> set sel \<and> Value r \<noteq> ''N/A'' \<and> Name r = p \<and> Test_Name r = t
        then r # pair_rows sel table p t else pair_rows sel table p t)"
  by (simp add: pair_rows_def)

lemma collect_rows_series:
  "collect_rows sel td table = Inr td' \<Longrightarrow>
     (pair_rows sel table p t = [] \<longrightarrow> series_at td' p t = series_at td p t)
     \<and> (pair_rows sel table p t \<noteq> [] \<longrightarrow>
          (\<exists>ser. series_at td' p t = Some ser
             \<and> extends (case series_at td p t of None \<Rightarrow> empty_series | Some s \<Rightarrow> s)
                  (pair_rows sel table p t) ser))"
proof (induction table arbitrary: td)
  case Nil
  then show ?case by (simp add: pair_rows_def)
next
  case (Cons r table)
  show ?case
  proof (cases "Name r \<in> set sel \<and> Value r \<noteq> ''N/A''")
    case False
    then have "collect_rows sel td table = Inr td'"
      using Cons.prems by (auto split: if_splits)
    from Cons.IH [OF this] False show ?thesis
      by (auto simp: pair_rows_Cons)
  next
    case True
    then obtain v where v: "py_float (Value r) = Some v"
      using Cons.prems by (cases "py_float (Value r)") auto
    let ?td1 = "add_observation (Name r) (Test_Name r) v (Date r) (Reference_Range r) td"
    have rest: "collect_rows sel ?td1 table = Inr td'"
      using Cons.prems True v by simp
    note IH = Cons.IH [OF rest]
    show ?thesis
    proof (cases "Name r = p \<and> Test_Name r = t")
      case False
      then have "series_at ?td1 p t = series_at td p t"
        by (auto simp: series_at_add_observation)
      with IH False show ?thesis
        by (auto simp: pair_rows_Cons)
    next
      case pair: True
      let ?base = "case series_at td p t of None \<Rightarrow> empty_series | Some s \<Rightarrow> s"
      let ?one = "?base\<lparr>s_values := s_values ?base @ [v], s_dates := s_dates ?base @ [Date r],
                        s_range := s_range ?base @ [Reference_Range r]\<rparr>"
      have s1: "series_at ?td1 p t = Some ?one"
        using pair by (simp add: series_at_add_observation)
      have rows: "pair_rows sel (r # table) p t = r # pair_rows sel table p t"
        using True pair by (simp add: pair_rows_Cons)
      have "\<exists>ser. series_at td' p t = Some ser \<and> extends ?base (r # pair_rows sel table p t) ser"
      proof (cases "pair_rows sel table p t = []")
        case True
        with IH s1 have "series_at td' p t = Some ?one" by simp
        moreover have "extends ?base [r] ?one"
          using v by (rule extends_single)
        ultimately show ?thesis using True by simp
      next
        case False
        with IH s1 obtain ser where "series_at td' p t = Some ser"
          and "extends ?one (pair_rows sel table p t) ser"
          by auto
        then show ?thesis
          using extends_step [OF v] by blast
      qed
      with rows show ?thesis by simp
    qed
  qed
qed

lemma collect_rows_keys:
  "collect_rows sel td table = Inr td' \<Longrightarrow> distinct (map fst (dd_get p [] td)) \<Longrightarrow>
     distinct (map fst (dd_get p [] td'))"
proof (induction table arbitrary: td)
  case Nil
  then show ?case by simp
next
  case (Cons r table)
  show ?case
  proof (cases "Name r \<in> set sel \<and> Value r \<noteq> ''N/A''")
    case False
    then have "collect_rows sel td table = Inr td'"
      using Cons.prems by (auto split: if_splits)
    then show ?thesis using Cons.prems(2) by (rule Cons.IH)
  next
    case True
    then obtain v where v: "py_float (Value r) = Some v"
      using Cons.prems by (cases "py_float (Value r)") auto
    let ?td1 = "add_observation (Name r) (Test_Name r) v (Date r) (Reference_Range r) td"
    have "collect_rows sel ?td1 table = Inr td'"
      using Cons.prems True v by simp
    moreover have "distinct (map fst (dd_get p [] ?td1))"
      using Cons.prems(2) by (rule keys_add_observation)
    ultimately show ?thesis by (rule Cons.IH)
  qed
qed

subsection \<open>The second loop\<close>

lemma parse_dates_strptime:
  "parse_dates ds = Inr dates \<Longrightarrow> map Inr dates = map strptime ds"
proof (induction ds arbitrary: dates)
  case Nil
  then show ?case by simp
next
  case (Cons d ds)
  then obtain dt dts where "strptime d = Inr dt" "parse_dates ds = Inr dts" "dates = dt # dts"
    by (auto split: sum.splits)
  with Cons.IH show ?case by simp
qed

lemma make_trace_result:
  assumes "make_trace p ser = Inr tr"
  shows "t_name tr = p
       \<and> (\<exists>dates. parse_dates (s_dates ser) = Inr dates
             \<and> t_x tr = map fst (sorted_reverse (\<lambda>x. dt_key (fst x)) (zip dates (s_values ser)))
             \<and> t_y tr = map snd (sorted_reverse (\<lambda>x. dt_key (fst x)) (zip dates (s_values ser))))
       \<and> (\<exists>range0 rest. s_range ser = range0 # rest
             \<and> reference_lines range0 = Inr (t_low tr, t_high tr))"
proof -
  obtain dates where d: "parse_dates (s_dates ser) = Inr dates"
    using assms by (cases "parse_dates (s_dates ser)") (simp_all add: make_trace_def)
  let ?sd = "sorted_reverse (\<lambda>x. dt_key (fst x)) (zip dates (s_values ser))"
  have ne: "?sd \<noteq> []"
    using assms d by (auto simp: make_trace_def Let_def split: if_splits)
  obtain range0 rest where r: "s_range ser = range0 # rest"
    using assms d ne by (cases "s_range ser") (simp_all add: make_trace_def Let_def)
  obtain low high where l: "reference_lines range0 = Inr (low, high)"
    using assms d ne r
    by (cases "reference_lines range0") (auto simp: make_trace_def Let_def)
  have "tr = \<lparr>t_name = p, t_x = map fst ?sd, t_y = map snd ?sd, t_low = low, t_high = high\<rparr>"
    using assms d ne r l by (simp add: make_trace_def Let_def)
  with d r l show ?thesis by simp
qed

lemma chart_traces_result:
  "chart_traces td t ps = Inr trs \<Longrightarrow>
     map t_name trs = filter (\<lambda>p. series_at td p t \<noteq> None) ps
     \<and> (\<forall>tr \<in> set trs. \<exists>ser. series_at td (t_name tr) t = Some ser
                              \<and> make_trace (t_name tr) ser = Inr tr)"
proof (induction ps arbitrary: trs)
  case Nil
  then show ?case by simp
next
  case (Cons p ps)
  show ?case
  proof (cases "series_at td p t")
    case None
    then have "chart_traces td t ps = Inr trs"
      using Cons.prems by (simp add: series_at_def)
    from Cons.IH [OF this] None show ?thesis by simp
  next
    case (Some ser)
    then obtain tr trs' where tr: "make_trace p ser = Inr tr"
      and rest: "chart_traces td t ps = Inr trs'" and trs: "trs = tr # trs'"
      using Cons.prems by (auto simp: series_at_def split: sum.splits)
    have name: "t_name tr = p"
      using make_trace_result [OF tr] by simp
    from Cons.IH [OF rest] Some tr trs name show ?thesis by simp
  qed
qed

lemma make_charts_result:
  "make_charts td sel tests = Inr cs \<Longrightarrow>
     map title cs = tests \<and> (\<forall>c \<in> set cs. chart_traces td (title c) sel = Inr (traces c))"
proof (induction tests arbitrary: cs)
  case Nil
  then show ?case by simp
next
  case (Cons t tests)
  then obtain ts cs' where "chart_traces td t sel = Inr ts"
    and "make_charts td sel tests = Inr cs'" and "cs = \<lparr>title = t, traces = ts\<rparr> # cs'"
    by (auto split: sum.splits)
  with Cons.IH show ?case by simp
qed

subsection \<open>The sort\<close>

lemma sorted_reverse_descending:
  "sorted (rev (map key (sorted_reverse key xs)))"
  by (simp add: sorted_reverse_def rev_map)

lemma mset_sorted_reverse: "mset (sorted_reverse key xs) = mset xs"
  by (simp add: sorted_reverse_def)

lemma length_sorted_reverse: "length (sorted_reverse key xs) = length xs"
  by (simp add: sorted_reverse_def)

lemma zip_fst_snd: "zip (map fst xs) (map snd xs) = xs"
  by (induction xs) auto

lemma points_of_rows:
  assumes "map Inr dates = map strptime (map Date rs)"
    and "map Some vals = map (\<lambda>r. py_float (Value r)) rs"
  shows "map Some (zip dates vals) = map point_of rs"
  using assms
proof (induction rs arbitrary: dates vals)
  case Nil
  then show ?case by simp
next
  case (Cons r rs)
  then obtain d dates' v vals' where dv: "dates = d # dates'" "vals = v # vals'"
    by (cases dates; cases vals) auto
  with Cons.prems have "Inr d = strptime (Date r)" and "Some v = py_float (Value r)"
    and rest: "map Inr dates' = map strptime (map Date rs)"
      "map Some vals' = map (\<lambda>r. py_float (Value r)) rs"
    by simp_all
  then have "strptime (Date r) = Inr d" and "py_float (Value r) = Some v"
    by simp_all
  then have "point_of r = Some (d, v)"
    by (simp add: point_of_def)
  moreover have "map Some (zip dates' vals') = map point_of rs"
    using rest by (rule Cons.IH)
  ultimately show ?case using dv by simp
qed

subsection \<open>The charts of a table\<close>

lemma series_at_empty: "series_at [] p t = None"
  by (simp add: series_at_def dd_get_def)

lemma collect_rows_series_iff:
  assumes "collect_rows sel [] table = Inr td"
  shows "series_at td p t \<noteq> None \<longleftrightarrow> pair_rows sel table p t \<noteq> []"
  using collect_rows_series [OF assms, of p t] by (auto simp: series_at_empty)

lemma collect_rows_series_rows:
  assumes "collect_rows sel [] table = Inr td" and "series_at td p t = Some ser"
  shows "pair_rows sel table p t \<noteq> [] \<and> extends empty_series (pair_rows sel table p t) ser"
  using collect_rows_series [OF assms(1), of p t] assms(2) by (auto simp: series_at_empty)

lemma update_charts_unfold:
  assumes "update_charts sel table = Inr charts" and "charts \<noteq> []"
  shows "\<exists>td. collect_rows sel [] table = Inr td
           \<and> make_charts td sel (map fst (dd_get (hd sel) [] td)) = Inr charts"
proof -
  have ne: "\<not> (sel = [] \<or> table = [])"
    using assms by (auto simp: update_charts_def)
  then obtain td where "collect_rows sel [] table = Inr td"
    using assms by (cases "collect_rows sel [] table") (simp_all add: update_charts_def)
  with ne assms show ?thesis by (simp add: update_charts_def Let_def)
qed

lemma update_charts_trace:
  assumes "update_charts sel table = Inr charts" and "c \<in> set charts" and "tr \<in> set (traces c)"
  shows "\<exists>ser dates.
           pair_rows sel table (t_name tr) (title c) \<noteq> []
           \<and> extends empty_series (pair_rows sel table (t_name tr) (title c)) ser
           \<and> parse_dates (s_dates ser) = Inr dates
           \<and> t_x tr = map fst (sorted_reverse (\<lambda>x. dt_key (fst x)) (zip dates (s_values ser)))
           \<and> t_y tr = map snd (sorted_reverse (\<lambda>x. dt_key (fst x)) (zip dates (s_values ser)))
           \<and> (\<exists>range0 rest. s_range ser = range0 # rest
                 \<and> reference_lines range0 = Inr (t_low tr, t_high tr))"
proof -
  have "charts \<noteq> []" using assms(2) by auto
  with assms(1) obtain td where td: "collect_rows sel [] table = Inr td"
    and mk: "make_charts td sel (map fst (dd_get (hd sel) [] td)) = Inr charts"
    using update_charts_unfold by blast
  have "chart_traces td (title c) sel = Inr (traces c)"
    using make_charts_result [OF mk] assms(2) by blast
  then obtain ser where ser: "series_at td (t_name tr) (title c) = Some ser"
    and tr: "make_trace (t_name tr) ser = Inr tr"
    using chart_traces_result assms(3) by blast
  from collect_rows_series_rows [OF td ser] make_trace_result [OF tr]
  show ?thesis by blast
qed

lemma update_charts_titles:
  assumes "update_charts sel table = Inr charts" and "sel \<noteq> []"
  shows "distinct (map title charts)
       \<and> set (map title charts) = {t. pair_rows sel table (hd sel) t \<noteq> []}
       \<and> (\<forall>c \<in> set charts.
             map t_name (traces c) = filter (\<lambda>p. pair_rows sel table p (title c) \<noteq> []) sel)"
proof (cases "table = []")
  case True
  with assms have "charts = []" by (simp add: update_charts_def)
  with True show ?thesis by (simp add: pair_rows_def)
next
  case False
  obtain td where td: "collect_rows sel [] table = Inr td"
    using assms False by (cases "collect_rows sel [] table") (simp_all add: update_charts_def)
  let ?tests = "map fst (dd_get (hd sel) [] td)"
  have mk: "make_charts td sel ?tests = Inr charts"
    using assms False td by (simp add: update_charts_def Let_def)
  note res = make_charts_result [OF mk]
  have titles: "map title charts = ?tests" using res by simp
  have "distinct (map fst (dd_get (hd sel) [] ([] :: test_data)))"
    by (simp add: dd_get_def)
  with td have d: "distinct ?tests" by (rule collect_rows_keys)
  have "set ?tests = {t. series_at td (hd sel) t \<noteq> None}"
    by (auto simp: series_at_def map_of_eq_None_iff)
  then have s: "set ?tests = {t. pair_rows sel table (hd sel) t \<noteq> []}"
    by (simp only: collect_rows_series_iff [OF td])
  have t: "\<forall>c \<in> set charts.
             map t_name (traces c) = filter (\<lambda>p. pair_rows sel table p (title c) \<noteq> []) sel"
  proof
    fix c
    assume "c \<in> set charts"
    with res have "chart_traces td (title c) sel = Inr (traces c)" by blast
    from chart_traces_result [OF this]
    have "map t_name (traces c) = filter (\<lambda>p. series_at td p (title c) \<noteq> None) sel"
      by simp
    then show "map t_name (traces c) = filter (\<lambda>p. pair_rows sel table p (title c) \<noteq> []) sel"
      by (simp only: collect_rows_series_iff [OF td])
  qed
  from titles d s t show ?thesis by simp
qed

lemma update_charts_points:
  assumes "update_charts sel table = Inr charts" and "c \<in> set charts" and "tr \<in> set (traces c)"
  shows "length (t_x tr) = length (t_y tr)
       \<and> sorted (rev (map dt_key (t_x tr)))
       \<and> mset (map Some (zip (t_x tr) (t_y tr)))
           = mset (map point_of (pair_rows sel table (t_name tr) (title c)))"
proof -
  let ?rs = "pair_rows sel table (t_name tr) (title c)"
  from update_charts_trace [OF assms] obtain ser dates where
    ext: "extends empty_series ?rs ser"
    and dates: "parse_dates (s_dates ser) = Inr dates"
    and x: "t_x tr = map fst (sorted_reverse (\<lambda>x. dt_key (fst x)) (zip dates (s_values ser)))"
    and y: "t_y tr = map snd (sorted_reverse (\<lambda>x. dt_key (fst x)) (zip dates (s_values ser)))"
    by blast
  let ?sd = "sorted_reverse (\<lambda>x. dt_key (fst x)) (zip dates (s_values ser))"
  have len: "length (t_x tr) = length (t_y tr)"
    using x y by simp
  have "map dt_key (t_x tr) = map (\<lambda>x. dt_key (fst x)) ?sd"
    using x by simp
  then have srt: "sorted (rev (map dt_key (t_x tr)))"
    using sorted_reverse_descending [of "\<lambda>x. dt_key (fst x)" "zip dates (s_values ser)"] by simp
  have "map Inr dates = map strptime (map Date ?rs)"
    using parse_dates_strptime [OF dates] ext by (simp add: extends_def empty_series_def)
  moreover have "map Some (s_values ser) = map (\<lambda>r. py_float (Value r)) ?rs"
    using ext by (simp add: extends_def empty_series_def)
  ultimately have pts: "map Some (zip dates (s_values ser)) = map point_of ?rs"
    by (rule points_of_rows)
  have "zip (t_x tr) (t_y tr) = ?sd"
    using x y by (simp add: zip_fst_snd)
  then have "mset (map Some (zip (t_x tr) (t_y tr))) = image_mset Some (mset ?sd)"
    by simp
  also have "\<dots> = image_mset Some (mset (zip dates (s_values ser)))"
    by (simp add: mset_sorted_reverse)
  also have "\<dots> = mset (map Some (zip dates (s_values ser)))"
    by simp
  also have "\<dots> = mset (map point_of ?rs)"
    using pts by simp
  finally show ?thesis using len srt by simp
qed

lemma update_charts_lines:
  assumes "update_charts sel table = Inr charts" and "c \<in> set charts" and "tr \<in> set (traces c)"
  shows "\<exists>r0 rest. pair_rows sel table (t_name tr) (title c) = r0 # rest
           \<and> reference_lines (Reference_Range r0) = Inr (t_low tr, t_high tr)"
proof -
  let ?rs = "pair_rows sel table (t_name tr) (title c)"
  from update_charts_trace [OF assms] obtain ser range0 rest where
    ext: "extends empty_series ?rs ser" and r: "s_range ser = range0 # rest"
    and l: "reference_lines range0 = Inr (t_low tr, t_high tr)"
    by blast
  from ext r have "map Reference_Range ?rs = range0 # rest"
    by (simp add: extends_def empty_series_def)
  then obtain r0 rest' where "?rs = r0 # rest'" and "Reference_Range r0 = range0"
    by (cases ?rs) auto
  with l show ?thesis by simp
qed

lemma strptime_fields:
  assumes "strptime (Some s) = Inr dt"
  shows "\<exists>d m y. py_split ''/'' s = [d, m, y]
           \<and> day dt = digits_val (filter (\<lambda>c. c \<noteq> CHR '' '') d)
           \<and> month dt = digits_val m \<and> year dt = digits_val y"
proof -
  obtain d m y where f: "py_split ''/'' s = [d, m, y]"
    using assms
    by (cases "py_split ''/'' s"; cases "tl (py_split ''/'' s)";
        cases "tl (tl (py_split ''/'' s))"; cases "tl (tl (tl (py_split ''/'' s)))")
      (simp_all add: strptime_def)
  with assms show ?thesis
    by (auto simp: strptime_def Let_def split: if_splits)
qed

end
